theory Spec2Isabelle
  imports Complex_Main "HOL-Library.Sublist"
begin

text \<open>
  A model of the subtitle fetcher of \<open>src/main.py\<close>: the reference resolver, the
  metadata lookup, the three enumeration endpoints, the track selection, the payload
  conversion and the unified entry point, function by function. Values read from the
  network are JSON values with Python's dynamic checks, every exception is a value,
  the answers of the network are a parameter, and every request is written to a trace.
\<close>

section \<open>Python values\<close>

text \<open>
  A Python \<open>str\<close> is modelled as a \<open>string\<close>: text in the ASCII range character by
  character, text outside it as its UTF-8 bytes. Equality, \<open>startswith\<close>, \<open>endswith\<close>,
  \<open>in\<close> and the search for the pattern \<open>BV[0-9A-Za-z]+\<close> give the same answer on the
  UTF-8 bytes as on the code points. \<open>lower\<close> is modelled on the letters A to Z: the
  only other code points whose lower case contains an ASCII letter are U+0130 (which
  becomes \<open>i\<close> followed by U+0307) and U+212A (which becomes \<open>k\<close>), and no comparison of
  this program can tell them from the unchanged bytes.
\<close>

definition startswith :: "string \<Rightarrow> string \<Rightarrow> bool" where
  "startswith s p = prefix p s"

definition endswith :: "string \<Rightarrow> string \<Rightarrow> bool" where
  "endswith s p = suffix p s"

definition is_upper :: "char \<Rightarrow> bool" where
  "is_upper c = (65 \<le> (of_char c :: nat) \<and> (of_char c :: nat) \<le> 90)"

definition is_lower :: "char \<Rightarrow> bool" where
  "is_lower c = (97 \<le> (of_char c :: nat) \<and> (of_char c :: nat) \<le> 122)"

definition is_digit :: "char \<Rightarrow> bool" where
  "is_digit c = (48 \<le> (of_char c :: nat) \<and> (of_char c :: nat) \<le> 57)"

definition is_alpha :: "char \<Rightarrow> bool" where
  "is_alpha c = (is_upper c \<or> is_lower c)"

definition is_alnum :: "char \<Rightarrow> bool" where
  "is_alnum c = (is_digit c \<or> is_alpha c)"

definition lower_char :: "char \<Rightarrow> char" where
  "lower_char c = (if is_upper c then char_of (of_char c + (32 :: nat)) else c)"

definition lower :: "string \<Rightarrow> string" where
  "lower s = map lower_char s"

text \<open>
  \<open>str.strip()\<close> removes the white space of Python's Unicode table from both ends:
  U+0009 to U+000D, U+001C to U+0020, U+0085, U+00A0, U+1680, U+2000 to U+200A, U+2028,
  U+2029, U+202F, U+205F and U+3000, each listed here by its UTF-8 bytes.
\<close>

definition space_tokens :: "string list" where
  "space_tokens =
     [[CHR 0x09], [CHR 0x0A], [CHR 0x0B], [CHR 0x0C], [CHR 0x0D],
      [CHR 0x1C], [CHR 0x1D], [CHR 0x1E], [CHR 0x1F], [CHR 0x20],
      [CHR 0xC2, CHR 0x85], [CHR 0xC2, CHR 0xA0], [CHR 0xE1, CHR 0x9A, CHR 0x80],
      [CHR 0xE2, CHR 0x80, CHR 0x80], [CHR 0xE2, CHR 0x80, CHR 0x81],
      [CHR 0xE2, CHR 0x80, CHR 0x82], [CHR 0xE2, CHR 0x80, CHR 0x83],
      [CHR 0xE2, CHR 0x80, CHR 0x84], [CHR 0xE2, CHR 0x80, CHR 0x85],
      [CHR 0xE2, CHR 0x80, CHR 0x86], [CHR 0xE2, CHR 0x80, CHR 0x87],
      [CHR 0xE2, CHR 0x80, CHR 0x88], [CHR 0xE2, CHR 0x80, CHR 0x89],
      [CHR 0xE2, CHR 0x80, CHR 0x8A], [CHR 0xE2, CHR 0x80, CHR 0xA8],
      [CHR 0xE2, CHR 0x80, CHR 0xA9], [CHR 0xE2, CHR 0x80, CHR 0xAF],
      [CHR 0xE2, CHR 0x81, CHR 0x9F], [CHR 0xE3, CHR 0x80, CHR 0x80]]"

fun drop_token :: "string list \<Rightarrow> string \<Rightarrow> string option" where
  "drop_token [] s = None"
| "drop_token (t # ts) s =
     (if t \<noteq> [] \<and> prefix t s then Some (drop (length t) s) else drop_token ts s)"

function lstrip_by :: "string list \<Rightarrow> string \<Rightarrow> string" where
  "lstrip_by toks s = (case drop_token toks s of None \<Rightarrow> s | Some r \<Rightarrow> lstrip_by toks r)"
  by pat_completeness auto
termination
proof (relation "measure (\<lambda>(toks, s). length s)")
  show "wf (measure (\<lambda>(toks :: string list, s :: string). length s))"
    by simp
next
  fix toks s r
  assume "drop_token toks s = Some r"
  then have "length r < length s"
    by (induction toks) (auto split: if_splits simp: prefix_def)
  then show "((toks, r), (toks, s)) \<in> measure (\<lambda>(toks, s). length s)"
    by simp
qed

declare lstrip_by.simps [simp del]

definition strip :: "string \<Rightarrow> string" where
  "strip s = rev (lstrip_by (map rev space_tokens) (rev (lstrip_by space_tokens s)))"

text \<open>\<open>sep.join(parts)\<close>.\<close>

fun join :: "string \<Rightarrow> string list \<Rightarrow> string" where
  "join sep [] = []"
| "join sep [x] = x"
| "join sep (x # y # ys) = x @ sep @ join sep (y # ys)"

text \<open>
  \<open>re.search(r"BV[0-9A-Za-z]+", s)\<close>: the match is tried at every position from the
  left, and the repetition takes as many characters as it can.
\<close>

definition match_bv :: "string \<Rightarrow> string option" where
  "match_bv s =
     (if startswith s ''BV'' \<and> takeWhile is_alnum (drop 2 s) \<noteq> []
      then Some (''BV'' @ takeWhile is_alnum (drop 2 s)) else None)"

fun search_bv :: "string \<Rightarrow> string option" where
  "search_bv [] = None"
| "search_bv (c # cs) =
     (case match_bv (c # cs) of Some m \<Rightarrow> Some m | None \<Rightarrow> search_bv cs)"

text \<open>
  \<open>re.match(r"^[a-zA-Z][a-zA-Z0-9+.-]*://", s)\<close>: neither \<open>:\<close> nor \<open>/\<close> is in the
  repeated class, so the separator has to follow the longest run of the class.
\<close>

definition is_scheme_char :: "char \<Rightarrow> bool" where
  "is_scheme_char c = (is_alnum c \<or> c = CHR ''+'' \<or> c = CHR ''.'' \<or> c = CHR ''-'')"

definition has_scheme :: "string \<Rightarrow> bool" where
  "has_scheme s =
     (case s of [] \<Rightarrow> False
      | c # cs \<Rightarrow> is_alpha c \<and> startswith (dropWhile is_scheme_char cs) ''://'')"

text \<open>
  The second pattern of \<open>_normalize_url\<close> is matched with \<open>re.IGNORECASE\<close>: a letter of
  the pattern matches both of its cases, and the letter \<open>i\<close> also matches U+0130 and
  U+0131 (UTF-8 \<open>C4 B0\<close> and \<open>C4 B1\<close>).
\<close>

fun fold_case :: "string \<Rightarrow> string" where
  "fold_case [] = []"
| "fold_case [c] = [lower_char c]"
| "fold_case (c # d # cs) =
     (if c = CHR 0xC4 \<and> (d = CHR 0xB0 \<or> d = CHR 0xB1) then CHR ''i'' # fold_case cs
      else lower_char c # fold_case (d # cs))"

definition link_domains :: "string list" where
  "link_domains =
     [''b23.tv'', ''acg.tv'', ''bili2233.cn'', ''bili2233.com'', ''bili.tv'', ''bili.com'']"

definition has_link_prefix :: "string \<Rightarrow> bool" where
  "has_link_prefix s = list_ex (\<lambda>d. startswith (fold_case s) (d @ ''/'')) link_domains"

definition normalize_url :: "string \<Rightarrow> string" where
  "normalize_url url =
     (let s = strip url in
      if has_scheme s then s
      else if has_link_prefix s then ''https://'' @ s
      else s)"

text \<open>
  The values that \<open>resp.json()\<close> can return. A float is a rational (the exact value of a
  finite binary64 number), an infinity or NaN. An object is an association list read
  with \<open>map_of\<close>.
\<close>

datatype pyfloat = Finite rat | PosInf | NegInf | NaN

datatype json =
    JNull
  | JBool bool
  | JInt int
  | JFloat pyfloat
  | JStr string
  | JArr "json list"
  | JObj "(string \<times> json) list"

text \<open>The exceptions the pipeline can raise.\<close>

datatype err =
    RequestException string
  | HTTPError nat
  | JSONDecodeError
  | RuntimeError string json json
  | AttributeError
  | TypeError
  | KeyError string
  | ValueError
  | OverflowError
  | IndexError

text \<open>Truthiness, \<open>a or b\<close>, \<open>d.get(k, default)\<close>.\<close>

fun truthy :: "json \<Rightarrow> bool" where
  "truthy JNull = False"
| "truthy (JBool b) = b"
| "truthy (JInt n) = (n \<noteq> 0)"
| "truthy (JFloat f) = (f \<noteq> Finite 0)"
| "truthy (JStr s) = (s \<noteq> [])"
| "truthy (JArr xs) = (xs \<noteq> [])"
| "truthy (JObj kvs) = (kvs \<noteq> [])"

definition py_or :: "json \<Rightarrow> json \<Rightarrow> json" where
  "py_or a b = (if truthy a then a else b)"

fun py_get :: "json \<Rightarrow> string \<Rightarrow> json \<Rightarrow> err + json" where
  "py_get (JObj kvs) k d = Inr (case map_of kvs k of None \<Rightarrow> d | Some v \<Rightarrow> v)"
| "py_get _ k d = Inl AttributeError"

section \<open>Track selection\<close>

text \<open>
  A track is the dict \<open>{"lan": lan, "url": url}\<close> that the enumeration builds; both
  values are whatever the endpoint sent.
\<close>

record track =
  lan :: json
  url :: json

text \<open>\<open>categorize_language\<close>: \<open>.lower()\<close> exists on a \<open>str\<close> only.\<close>

definition categorize_language :: "json \<Rightarrow> err + string" where
  "categorize_language lan_key =
     (case py_or lan_key (JStr []) of
        JStr s \<Rightarrow>
          (let l = lower s in
           if startswith l ''ai-en'' \<or> l = ''en'' \<or> startswith l ''en-'' then Inr ''en''
           else if startswith l ''ai-zh'' \<or> l = ''zh'' \<or> startswith l ''zh-'' then Inr ''zh''
           else Inr ''other'')
      | _ \<Rightarrow> Inl AttributeError)"

text \<open>
  \<open>select_by_priority\<close>: the first loop appends every track to the bucket of its
  category, the second returns the first non-empty bucket named by the priority list.
\<close>

definition buckets0 :: "string \<rightharpoonup> track list" where
  "buckets0 = [''en'' \<mapsto> [], ''zh'' \<mapsto> [], ''other'' \<mapsto> []]"

fun fill_buckets :: "track list \<Rightarrow> (string \<rightharpoonup> track list) \<Rightarrow> err + (string \<rightharpoonup> track list)" where
  "fill_buckets [] buckets = Inr buckets"
| "fill_buckets (it # subs) buckets =
     (case categorize_language (lan it) of
        Inl e \<Rightarrow> Inl e
      | Inr c \<Rightarrow>
          (case buckets c of
             None \<Rightarrow> Inl (KeyError c)
           | Some b \<Rightarrow> fill_buckets subs (buckets(c \<mapsto> b @ [it]))))"

fun first_bucket :: "(string \<rightharpoonup> track list) \<Rightarrow> string list \<Rightarrow> track list \<times> string" where
  "first_bucket buckets [] = ([], [])"
| "first_bucket buckets (p # priority) =
     (case buckets p of
        None \<Rightarrow> first_bucket buckets priority
      | Some b \<Rightarrow> if b \<noteq> [] then (b, p) else first_bucket buckets priority)"

definition select_by_priority :: "track list \<Rightarrow> string list \<Rightarrow> err + track list \<times> string" where
  "select_by_priority subs priority =
     (case fill_buckets subs buckets0 of
        Inl e \<Rightarrow> Inl e
      | Inr buckets \<Rightarrow> Inr (first_bucket buckets priority))"

section \<open>The network\<close>

text \<open>
  Every call of \<open>requests.get\<close> is recorded with what it asks for. What the call
  gives back is a parameter of the model, one function per call site: the exception
  it raises, or the response.
\<close>

datatype request =
    GetShort string
  | GetView string
  | GetWeb int int
  | GetV2 int int
  | GetDm int
  | GetSubtitle json

record response =
  status_code :: nat
  json_body :: "json option"

record world =
  get_short :: "string \<Rightarrow> err + string option"
  get_view :: "string \<Rightarrow> err + response"
  get_web :: "int \<Rightarrow> int \<Rightarrow> err + response"
  get_v2 :: "int \<Rightarrow> int \<Rightarrow> err + response"
  get_dm :: "int \<Rightarrow> err + response"
  get_sub :: "json \<Rightarrow> err + response"
  int_of_str :: "string \<Rightarrow> int option"
  float_of_str :: "string \<Rightarrow> pyfloat option"

text \<open>
  \<open>get_short\<close> gives \<open>resp.url\<close>, the address after the redirects. \<open>json_body\<close> is what
  \<open>resp.json()\<close> parses, \<open>None\<close> when the body is not JSON. \<open>int_of_str\<close> and
  \<open>float_of_str\<close> are the built-ins \<open>int\<close> and \<open>float\<close> on a \<open>str\<close>, \<open>None\<close> where they raise
  \<open>ValueError\<close>.

  A computation takes the trace of requests made so far and returns its result, an
  exception or a value, with the trace extended.
\<close>

type_synonym 'a io = "request list \<Rightarrow> (err + 'a) \<times> request list"

definition io_return :: "'a \<Rightarrow> 'a io" where
  "io_return x = (\<lambda>tr. (Inr x, tr))"

definition io_lift :: "err + 'a \<Rightarrow> 'a io" where
  "io_lift r = (\<lambda>tr. (r, tr))"

definition io_bind :: "'a io \<Rightarrow> ('a \<Rightarrow> 'b io) \<Rightarrow> 'b io" where
  "io_bind m f =
     (\<lambda>tr. case m tr of (Inl e, tr') \<Rightarrow> (Inl e, tr') | (Inr x, tr') \<Rightarrow> f x tr')"

definition requests_get :: "request \<Rightarrow> err + 'a \<Rightarrow> 'a io" where
  "requests_get rq answer = (\<lambda>tr. (answer, tr @ [rq]))"

definition err_bind :: "err + 'a \<Rightarrow> ('a \<Rightarrow> err + 'b) \<Rightarrow> err + 'b" where
  "err_bind r f = (case r of Inl e \<Rightarrow> Inl e | Inr x \<Rightarrow> f x)"

definition raise_for_status :: "response \<Rightarrow> err + unit" where
  "raise_for_status resp =
     (if 400 \<le> status_code resp \<and> status_code resp < 600
      then Inl (HTTPError (status_code resp)) else Inr ())"

definition resp_json :: "response \<Rightarrow> err + json" where
  "resp_json resp = (case json_body resp of None \<Rightarrow> Inl JSONDecodeError | Some v \<Rightarrow> Inr v)"

text \<open>\<open>x == 0\<close>, \<open>d[k]\<close>, \<open>int(x)\<close> and \<open>for it in x\<close> on a parsed value.\<close>

fun py_eq0 :: "json \<Rightarrow> bool" where
  "py_eq0 (JInt n) = (n = 0)"
| "py_eq0 (JFloat f) = (f = Finite 0)"
| "py_eq0 (JBool b) = (\<not> b)"
| "py_eq0 _ = False"

fun py_getitem :: "json \<Rightarrow> string \<Rightarrow> err + json" where
  "py_getitem (JObj kvs) k = (case map_of kvs k of None \<Rightarrow> Inl (KeyError k) | Some v \<Rightarrow> Inr v)"
| "py_getitem _ k = Inl TypeError"

definition py_trunc :: "rat \<Rightarrow> int" where
  "py_trunc r = (if 0 \<le> r then \<lfloor>r\<rfloor> else \<lceil>r\<rceil>)"

fun float_int :: "pyfloat \<Rightarrow> err + int" where
  "float_int (Finite r) = Inr (py_trunc r)"
| "float_int NaN = Inl ValueError"
| "float_int _ = Inl OverflowError"

fun py_int :: "(string \<Rightarrow> int option) \<Rightarrow> json \<Rightarrow> err + int" where
  "py_int p (JInt n) = Inr n"
| "py_int p (JBool b) = Inr (if b then 1 else 0)"
| "py_int p (JFloat f) = float_int f"
| "py_int p (JStr s) = (case p s of None \<Rightarrow> Inl ValueError | Some n \<Rightarrow> Inr n)"
| "py_int p _ = Inl TypeError"

fun py_iter :: "json \<Rightarrow> err + json list" where
  "py_iter (JArr xs) = Inr xs"
| "py_iter (JStr s) = Inr (map (\<lambda>c. JStr [c]) s)"
| "py_iter (JObj kvs) = Inr (map (\<lambda>kv. JStr (fst kv)) kvs)"
| "py_iter _ = Inl TypeError"

section \<open>Reference resolver\<close>

definition short_domains :: "string list" where
  "short_domains = [''b23.tv'', ''acg.tv'', ''bili2233.cn'', ''bili2233.com'']"

text \<open>
  \<open>parse_input_to_bvid\<close>: every exception of the second step is swallowed, so the
  function always returns a string.
\<close>

definition parse_input_to_bvid :: "world \<Rightarrow> string \<Rightarrow> request list \<Rightarrow> string \<times> request list" where
  "parse_input_to_bvid w user_input tr =
     (case search_bv user_input of
        Some m \<Rightarrow> (m, tr)
      | None \<Rightarrow>
          (let candidate = strip user_input in
           if list_ex (\<lambda>d. sublist d candidate) short_domains then
             (let url = normalize_url candidate in
              case requests_get (GetShort url) (get_short w url) tr of
                (Inl e, tr') \<Rightarrow> (candidate, tr')
              | (Inr resp_url, tr') \<Rightarrow>
                  (let final_url =
                         (case resp_url of None \<Rightarrow> url | Some u \<Rightarrow> if u \<noteq> [] then u else url)
                   in case search_bv final_url of
                        Some m \<Rightarrow> (m, tr')
                      | None \<Rightarrow> (candidate, tr')))
           else (candidate, tr)))"

section \<open>Metadata lookup and track enumeration\<close>

definition get_view_info_by_bvid :: "world \<Rightarrow> string \<Rightarrow> json io" where
  "get_view_info_by_bvid w bvid =
     io_bind (requests_get (GetView bvid) (get_view w bvid)) (\<lambda>resp.
     io_lift (
       err_bind (raise_for_status resp) (\<lambda>_.
       err_bind (resp_json resp) (\<lambda>data.
       err_bind (py_get data ''code'' JNull) (\<lambda>code.
       if \<not> py_eq0 code then
         err_bind (py_get data ''message'' JNull) (\<lambda>message.
         Inl (RuntimeError ''view api error'' code message))
       else py_getitem data ''data'')))))"

text \<open>
  The loop shared by the three enumeration functions: \<open>k1\<close> is the field read first
  for the address and \<open>k2\<close> the fallback. An entry without a truthy address is dropped.
\<close>

fun collect_tracks :: "string \<Rightarrow> string \<Rightarrow> json list \<Rightarrow> track list \<Rightarrow> err + track list" where
  "collect_tracks k1 k2 [] result = Inr result"
| "collect_tracks k1 k2 (it # items) result =
     err_bind (py_get it k1 JNull) (\<lambda>u1.
     err_bind (py_get it k2 JNull) (\<lambda>u2.
     err_bind (py_get it ''lan'' JNull) (\<lambda>l1.
     err_bind (py_get it ''lang_key'' JNull) (\<lambda>l2.
     (let url = py_or u1 u2; lan = py_or (py_or l1 l2) (JStr [])
      in collect_tracks k1 k2 items
           (if truthy url then result @ [\<lparr>lan = lan, url = url\<rparr>] else result))))))"

definition get_subtitle_list_web :: "world \<Rightarrow> int \<Rightarrow> int \<Rightarrow> track list io" where
  "get_subtitle_list_web w aid cid =
     io_bind (requests_get (GetWeb aid cid) (get_web w aid cid)) (\<lambda>resp.
     io_lift (
       err_bind (raise_for_status resp) (\<lambda>_.
       err_bind (resp_json resp) (\<lambda>data.
       err_bind (py_get data ''code'' JNull) (\<lambda>code.
       if \<not> py_eq0 code then
         err_bind (py_get data ''message'' JNull) (\<lambda>message.
         Inl (RuntimeError ''player api error'' code message))
       else
         err_bind (py_get data ''data'' (JObj [])) (\<lambda>d.
         err_bind (py_get d ''subtitle'' (JObj [])) (\<lambda>sub.
         err_bind (py_get sub ''subtitles'' JNull) (\<lambda>subtitles.
         err_bind (py_iter (py_or subtitles (JArr []))) (\<lambda>items.
         collect_tracks ''url'' ''subtitle_url'' items [])))))))))"

definition get_subtitle_list_player_v2 :: "world \<Rightarrow> int \<Rightarrow> int \<Rightarrow> track list io" where
  "get_subtitle_list_player_v2 w aid cid =
     io_bind (requests_get (GetV2 aid cid) (get_v2 w aid cid)) (\<lambda>resp.
     io_lift (
       err_bind (raise_for_status resp) (\<lambda>_.
       err_bind (resp_json resp) (\<lambda>data.
       err_bind (py_get data ''code'' JNull) (\<lambda>code.
       if \<not> py_eq0 code then Inr []
       else
         err_bind (py_get data ''data'' JNull) (\<lambda>d.
         err_bind (py_get (py_or d (JObj [])) ''subtitle'' JNull) (\<lambda>s.
         err_bind (py_get (py_or s (JObj [])) ''subtitles'' JNull) (\<lambda>subtitles.
         err_bind (py_iter (py_or subtitles (JArr []))) (\<lambda>items.
         collect_tracks ''url'' ''subtitle_url'' items [])))))))))"

definition get_subtitle_list_app_dmview_json :: "world \<Rightarrow> int \<Rightarrow> track list io" where
  "get_subtitle_list_app_dmview_json w cid =
     io_bind (requests_get (GetDm cid) (get_dm w cid)) (\<lambda>resp.
     io_lift (
       err_bind (raise_for_status resp) (\<lambda>_.
       err_bind (resp_json resp) (\<lambda>data.
       err_bind (py_get data ''code'' JNull) (\<lambda>code.
       if \<not> py_eq0 code then Inr []
       else
         err_bind (py_get data ''data'' JNull) (\<lambda>d.
         err_bind (py_get (py_or d (JObj [])) ''subtitle'' JNull) (\<lambda>s.
         err_bind (py_get (py_or s (JObj [])) ''subtitles'' JNull) (\<lambda>subtitles.
         err_bind (py_iter (py_or subtitles (JArr []))) (\<lambda>subs.
         collect_tracks ''subtitle_url'' ''url'' subs [])))))))))"

section \<open>Float arithmetic\<close>

text \<open>
  Every float operation is the exact operation followed by rounding to the nearest
  binary64 number, ties to the even significand. \<open>ilog2 x\<close> is the exponent of the
  binade of a positive \<open>x\<close>; the spacing of binary64 numbers there is \<open>2\<close> to the
  \<open>ilog2 x - 52\<close>, and \<open>2\<close> to the \<open>- 1074\<close> below the normal range. A rounded value
  in the binade 1024 or above is out of range: the result is an infinity.
\<close>

fun bit_length :: "nat \<Rightarrow> nat" where
  "bit_length n = (if n = 0 then 0 else Suc (bit_length (n div 2)))"

definition ilog2 :: "rat \<Rightarrow> int" where
  "ilog2 x =
     (if 1 \<le> x then int (bit_length (nat \<lfloor>x\<rfloor>)) - 1
      else - int (bit_length (nat (\<lceil>1 / x\<rceil> - 1))))"

definition round_half_even :: "rat \<Rightarrow> int" where
  "round_half_even x =
     (let f = \<lfloor>x\<rfloor>; d = x - of_int f
      in if d < 1 / 2 then f
         else if 1 / 2 < d then f + 1
         else if even f then f else f + 1)"

definition fl64 :: "rat \<Rightarrow> rat" where
  "fl64 x =
     (if x = 0 then 0
      else (let q = 2 powi (max (ilog2 \<bar>x\<bar>) (- 1022) - 52)
            in q * of_int (round_half_even (x / q))))"

definition to_binary64 :: "rat \<Rightarrow> pyfloat" where
  "to_binary64 x =
     (let y = fl64 x
      in if 1024 \<le> ilog2 \<bar>y\<bar> then (if 0 < y then PosInf else NegInf) else Finite y)"

fun float_sub :: "pyfloat \<Rightarrow> pyfloat \<Rightarrow> pyfloat" where
  "float_sub (Finite a) (Finite b) = to_binary64 (a - b)"
| "float_sub NaN _ = NaN"
| "float_sub _ NaN = NaN"
| "float_sub PosInf PosInf = NaN"
| "float_sub NegInf NegInf = NaN"
| "float_sub PosInf _ = PosInf"
| "float_sub NegInf _ = NegInf"
| "float_sub (Finite a) PosInf = NegInf"
| "float_sub (Finite a) NegInf = PosInf"

fun float_sign :: "pyfloat \<Rightarrow> int" where
  "float_sign (Finite a) = (if 0 < a then 1 else if a < 0 then - 1 else 0)"
| "float_sign PosInf = 1"
| "float_sign NegInf = - 1"
| "float_sign NaN = 0"

fun float_mul :: "pyfloat \<Rightarrow> pyfloat \<Rightarrow> pyfloat" where
  "float_mul (Finite a) (Finite b) = to_binary64 (a * b)"
| "float_mul NaN y = NaN"
| "float_mul x NaN = NaN"
| "float_mul x y =
     (let s = float_sign x * float_sign y
      in if s = 0 then NaN else if 0 < s then PosInf else NegInf)"

text \<open>\<open>round(x)\<close> on a float gives an \<open>int\<close>, ties to the even integer.\<close>

fun py_round :: "pyfloat \<Rightarrow> err + int" where
  "py_round (Finite x) = Inr (round_half_even x)"
| "py_round NaN = Inl ValueError"
| "py_round _ = Inl OverflowError"

text \<open>\<open>float(x)\<close> on a parsed value; an \<open>int\<close> too large for binary64 raises.\<close>

fun py_float :: "(string \<Rightarrow> pyfloat option) \<Rightarrow> json \<Rightarrow> err + pyfloat" where
  "py_float p (JFloat f) = Inr f"
| "py_float p (JInt n) =
     (case to_binary64 (of_int n) of Finite y \<Rightarrow> Inr (Finite y) | _ \<Rightarrow> Inl OverflowError)"
| "py_float p (JBool b) = Inr (Finite (if b then 1 else 0))"
| "py_float p (JStr s) = (case p s of None \<Rightarrow> Inl ValueError | Some f \<Rightarrow> Inr f)"
| "py_float p _ = Inl TypeError"

section \<open>Conversion of the payload\<close>

text \<open>\<open>str(n)\<close> and the format \<open>0wd\<close>: decimal digits, the sign before the padding.\<close>

fun digits :: "nat \<Rightarrow> string" where
  "digits n =
     (if n < 10 then [char_of (48 + n)]
      else digits (n div 10) @ [char_of (48 + n mod 10)])"

definition py_str :: "int \<Rightarrow> string" where
  "py_str n = (if n < 0 then CHR ''-'' # digits (nat (- n)) else digits (nat n))"

definition zfill :: "nat \<Rightarrow> string \<Rightarrow> string" where
  "zfill w s = replicate (w - length s) (CHR ''0'') @ s"

definition format_0d :: "nat \<Rightarrow> int \<Rightarrow> string" where
  "format_0d w n =
     (if n < 0 then CHR ''-'' # zfill (w - 1) (digits (nat (- n))) else zfill w (digits (nat n)))"

text \<open>
  \<open>fmt_time\<close>: \<open>int(t)\<close> raises on an infinity and on NaN. The integer part of a float
  is a float, so its conversion in \<open>t - int(t)\<close> is exact.
\<close>

definition fmt_time :: "pyfloat \<Rightarrow> err + string" where
  "fmt_time t =
     err_bind (float_int t) (\<lambda>it.
     err_bind (py_round (float_mul (float_sub t (Finite (of_int it))) (Finite 1000))) (\<lambda>ms.
     (let sec = it mod 60;
          minutes = (it div 60) mod 60;
          hours = it div 3600
      in Inr (format_0d 2 hours @ '':'' @ format_0d 2 minutes @ '':'' @ format_0d 2 sec
              @ '','' @ format_0d 3 ms))))"

definition py_strip :: "json \<Rightarrow> err + string" where
  "py_strip v = (case v of JStr s \<Rightarrow> Inr (strip s) | _ \<Rightarrow> Inl AttributeError)"

text \<open>The loop of \<open>json_subtitle_to_srt\<close>, with its two variables \<open>lines\<close> and \<open>index\<close>.\<close>

fun srt_loop :: "world \<Rightarrow> json list \<Rightarrow> string list \<Rightarrow> int \<Rightarrow> err + string list" where
  "srt_loop w [] lines index = Inr lines"
| "srt_loop w (item # items) lines index =
     err_bind (py_get item ''from'' (JFloat (Finite 0))) (\<lambda>f.
     err_bind (py_float (float_of_str w) f) (\<lambda>start.
     err_bind (py_get item ''to'' (JFloat (Finite 0))) (\<lambda>t.
     err_bind (py_float (float_of_str w) t) (\<lambda>stop.
     err_bind (py_get item ''content'' JNull) (\<lambda>c.
     err_bind (py_strip (py_or c (JStr []))) (\<lambda>content.
     if content = [] then srt_loop w items lines index
     else
       err_bind (fmt_time start) (\<lambda>a.
       err_bind (fmt_time stop) (\<lambda>b.
       srt_loop w items
         (lines @ [py_str index, a @ '' --> '' @ b, content, []]) (index + 1)))))))))"

definition srt_lines :: "world \<Rightarrow> json \<Rightarrow> err + string list" where
  "srt_lines w body = err_bind (py_iter body) (\<lambda>items. srt_loop w items [] 1)"

definition json_subtitle_to_srt :: "world \<Rightarrow> json \<Rightarrow> err + string" where
  "json_subtitle_to_srt w body =
     err_bind (srt_lines w body) (\<lambda>lines. Inr (join [CHR 0x0A] lines))"

fun plaintext_loop :: "json list \<Rightarrow> string list \<Rightarrow> err + string list" where
  "plaintext_loop [] parts = Inr parts"
| "plaintext_loop (item # items) parts =
     err_bind (py_get item ''content'' JNull) (\<lambda>c.
     err_bind (py_strip (py_or c (JStr []))) (\<lambda>content.
     plaintext_loop items (if content \<noteq> [] then parts @ [content] else parts)))"

definition subtitle_json_to_plaintext :: "json \<Rightarrow> err + string" where
  "subtitle_json_to_plaintext body =
     err_bind (py_iter body) (\<lambda>items.
     err_bind (plaintext_loop items []) (\<lambda>parts.
     Inr (join [CHR 0x0A] parts)))"

definition download_subtitle_plaintext :: "world \<Rightarrow> json \<Rightarrow> string io" where
  "download_subtitle_plaintext w u =
     io_bind (requests_get (GetSubtitle u) (get_sub w u)) (\<lambda>resp.
     io_lift (
       err_bind (raise_for_status resp) (\<lambda>_.
       err_bind (resp_json resp) (\<lambda>data.
       err_bind (py_get data ''body'' JNull) (\<lambda>b.
       subtitle_json_to_plaintext (py_or b (JArr [])))))))"

section \<open>The unified entry point\<close>

text \<open>
  The result dict. The messages of the source are fixed texts, one constructor each;
  the message of status 99 is built from the exception caught.
\<close>

datatype message = MsgOk | MsgNoSubtitles | MsgWhitelistEmpty | MsgPriorityEmpty | MsgException err

record result =
  code :: int
  msg :: message
  res_text :: string
  lang :: json

text \<open>The fallback over the three endpoints (lines 247 to 251).\<close>

definition enumerate_subs :: "world \<Rightarrow> int \<Rightarrow> int \<Rightarrow> track list io" where
  "enumerate_subs w aid cid =
     io_bind (get_subtitle_list_web w aid cid) (\<lambda>subs.
     io_bind (if subs = [] then get_subtitle_list_player_v2 w aid cid else io_return subs) (\<lambda>subs.
     if subs = [] then get_subtitle_list_app_dmview_json w cid else io_return subs))"

text \<open>
  The whitelist test \<open>any(lan == w or (lan.startswith(w) and w.endswith("-")) ...)\<close>
  stops at the first entry that matches; \<open>startswith\<close> exists on a \<open>str\<close> only.
\<close>

fun whitelist_match :: "json \<Rightarrow> string list \<Rightarrow> err + bool" where
  "whitelist_match l [] = Inr False"
| "whitelist_match l (e # es) =
     (case l of
        JStr s \<Rightarrow>
          if s = e \<or> (startswith s e \<and> endswith e ''-'') then Inr True
          else whitelist_match l es
      | _ \<Rightarrow> Inl AttributeError)"

fun whitelist_loop :: "track list \<Rightarrow> string list \<Rightarrow> track list \<Rightarrow> err + track list" where
  "whitelist_loop [] wl selected = Inr selected"
| "whitelist_loop (it # subs) wl selected =
     err_bind (whitelist_match (py_or (lan it) (JStr [])) wl) (\<lambda>m.
     whitelist_loop subs wl (if m then selected @ [it] else selected))"

text \<open>Lines 267 to 269: only the first selected track is downloaded.\<close>

definition fetch_pick :: "world \<Rightarrow> track list \<Rightarrow> result io" where
  "fetch_pick w selected =
     (case selected of
        [] \<Rightarrow> io_lift (Inl IndexError)
      | pick # _ \<Rightarrow>
          io_bind (download_subtitle_plaintext w (url pick)) (\<lambda>plain.
          io_return \<lparr>code = 0, msg = MsgOk, res_text = plain, lang = py_or (lan pick) (JStr [])\<rparr>))"

text \<open>Lines 243 to 246: the identifier, its metadata, the two numbers.\<close>

definition fetch_ids :: "world \<Rightarrow> string \<Rightarrow> (int \<times> int) io" where
  "fetch_ids w video_url =
     (\<lambda>tr. case parse_input_to_bvid w video_url tr of (bvid, tr') \<Rightarrow>
       (io_bind (get_view_info_by_bvid w bvid) (\<lambda>view.
        io_bind (io_lift (err_bind (py_getitem view ''aid'') (py_int (int_of_str w)))) (\<lambda>aid.
        io_bind (io_lift (err_bind (py_getitem view ''cid'') (py_int (int_of_str w)))) (\<lambda>cid.
        io_return (aid, cid))))) tr')"

text \<open>
  \<open>a or d\<close> on an optional list argument: a missing and an empty list are both falsy.
\<close>

definition list_or :: "'a list option \<Rightarrow> 'a list \<Rightarrow> 'a list" where
  "list_or a d = (case a of None \<Rightarrow> d | Some l \<Rightarrow> if l \<noteq> [] then l else d)"

text \<open>The body of the \<open>try\<close> block.\<close>

definition fetch_try ::
  "world \<Rightarrow> string \<Rightarrow> string list option \<Rightarrow> string list option \<Rightarrow> result io" where
  "fetch_try w video_url whitelist lang_priority =
     io_bind (fetch_ids w video_url) (\<lambda>(aid, cid).
     io_bind (enumerate_subs w aid cid) (\<lambda>subs.
     if subs = [] then
       io_return \<lparr>code = 1, msg = MsgNoSubtitles, res_text = [], lang = JStr []\<rparr>
     else
       io_bind (if list_or whitelist [] \<noteq> []
                then io_lift (whitelist_loop subs (list_or whitelist []) [])
                else io_return [])
         (\<lambda>selected.
       if list_or whitelist [] \<noteq> [] \<and> selected = [] then
         io_return \<lparr>code = 2, msg = MsgWhitelistEmpty, res_text = [], lang = JStr []\<rparr>
       else if selected = [] then
         io_bind (io_lift (select_by_priority subs
                    (list_or lang_priority [''en'', ''zh'', ''other''])))
           (\<lambda>(selected, picked).
         if selected = [] then
           io_return \<lparr>code = 3, msg = MsgPriorityEmpty, res_text = [], lang = JStr []\<rparr>
         else fetch_pick w selected)
       else fetch_pick w selected)))"

text \<open>\<open>except Exception as e\<close>: the exception becomes the result with status 99.\<close>

definition catch_all :: "result io \<Rightarrow> request list \<Rightarrow> result \<times> request list" where
  "catch_all m tr =
     (case m tr of
        (Inl e, tr') \<Rightarrow> (\<lparr>code = 99, msg = MsgException e, res_text = [], lang = JStr []\<rparr>, tr')
      | (Inr r, tr') \<Rightarrow> (r, tr'))"

definition fetch_bilibili_subtitle_text ::
  "world \<Rightarrow> string \<Rightarrow> string list option \<Rightarrow> string list option
     \<Rightarrow> request list \<Rightarrow> result \<times> request list" where
  "fetch_bilibili_subtitle_text w video_url whitelist lang_priority =
     catch_all (fetch_try w video_url whitelist lang_priority)"

section \<open>Vocabulary of the properties\<close>

text \<open>The two rules of the categorization, on a lower-cased code.\<close>

definition en_rule :: "string \<Rightarrow> bool" where
  "en_rule l = (startswith l ''ai-en'' \<or> l = ''en'' \<or> startswith l ''en-'')"

definition zh_rule :: "string \<Rightarrow> bool" where
  "zh_rule l = (startswith l ''ai-zh'' \<or> l = ''zh'' \<or> startswith l ''zh-'')"

text \<open>
  The bucket of a category: the tracks of that category, in their order. A track list
  whose language codes are all strings.
\<close>

definition bucket_of :: "track list \<Rightarrow> string \<Rightarrow> track list" where
  "bucket_of subs c = filter (\<lambda>t. categorize_language (lan t) = Inr c) subs"

definition is_str :: "json \<Rightarrow> bool" where
  "is_str v = (case v of JStr s \<Rightarrow> True | _ \<Rightarrow> False)"

definition str_lans :: "track list \<Rightarrow> bool" where
  "str_lans subs = list_all (\<lambda>t. is_str (lan t)) subs"

definition demo_tracks :: "track list" where
  "demo_tracks =
     [\<lparr>lan = JStr ''zh-CN'', url = JStr ''u1''\<rparr>,
      \<lparr>lan = JStr ''en-US'', url = JStr ''u2''\<rparr>,
      \<lparr>lan = JStr ''zh-Hans'', url = JStr ''u3''\<rparr>]"

text \<open>A string that matches the pattern \<open>BV[0-9A-Za-z]+\<close> as a whole.\<close>

definition is_bv :: "string \<Rightarrow> bool" where
  "is_bv r = (startswith r ''BV'' \<and> drop 2 r \<noteq> [] \<and> list_all is_alnum (drop 2 r))"

text \<open>
  The trimmed text of a payload entry, empty where the entry has none. An entry the
  conversion accepts: an object whose times, if present, are finite floats and whose
  text, if present, is null or a string. The lines of numbered blocks, from a first
  number on: number, time range, text, blank line.
\<close>

definition entry_text :: "json \<Rightarrow> string" where
  "entry_text item =
     (case py_get item ''content'' JNull of
        Inl e \<Rightarrow> []
      | Inr c \<Rightarrow> (case py_strip (py_or c (JStr [])) of Inl e \<Rightarrow> [] | Inr s \<Rightarrow> s))"

definition timed :: "json option \<Rightarrow> bool" where
  "timed v = (case v of None \<Rightarrow> True | Some (JFloat (Finite r)) \<Rightarrow> True | Some _ \<Rightarrow> False)"

definition worded :: "json option \<Rightarrow> bool" where
  "worded v = (case v of None \<Rightarrow> True | Some JNull \<Rightarrow> True | Some (JStr s) \<Rightarrow> True | Some _ \<Rightarrow> False)"

definition caption :: "json \<Rightarrow> bool" where
  "caption item =
     (case item of
        JObj kvs \<Rightarrow> timed (map_of kvs ''from'') \<and> timed (map_of kvs ''to'')
                      \<and> worded (map_of kvs ''content'')
      | _ \<Rightarrow> False)"

fun numbered :: "int \<Rightarrow> (string \<times> string) list \<Rightarrow> string list" where
  "numbered i [] = []"
| "numbered i ((stamp, words) # blocks) = [py_str i, stamp, words, []] @ numbered (i + 1) blocks"

text \<open>
  A rational that is a binary64 number: rounding leaves it as it is. Every finite
  Python float is one.
\<close>

definition is_binary64 :: "rat \<Rightarrow> bool" where
  "is_binary64 x = (fl64 x = x)"

text \<open>
  What a computation returns, apart from the trace. A service-level error: the
  response arrived with a status below 400 and parsed to an object whose \<open>code\<close> is
  not 0.
\<close>

definition answer :: "'a io \<Rightarrow> err + 'a" where
  "answer m = fst (m [])"

definition service_error :: "response \<Rightarrow> bool" where
  "service_error resp =
     (\<not> (400 \<le> status_code resp \<and> status_code resp < 600)
      \<and> (case json_body resp of
           Some (JObj kvs) \<Rightarrow> \<not> py_eq0 (case map_of kvs ''code'' of None \<Rightarrow> JNull | Some c \<Rightarrow> c)
         | _ \<Rightarrow> False))"

text \<open>
  The pipeline reaches line 252 with the track list \<open>subs\<close> and the trace \<open>tr'\<close>. The
  selection of lines 254 to 266: by the whitelist when there is one, by priority
  otherwise.
\<close>

definition enumerated ::
  "world \<Rightarrow> string \<Rightarrow> request list \<Rightarrow> track list \<Rightarrow> request list \<Rightarrow> bool" where
  "enumerated w video_url tr subs tr' =
     (case fetch_ids w video_url tr of
        (Inr (aid, cid), tr1) \<Rightarrow> enumerate_subs w aid cid tr1 = (Inr subs, tr')
      | (Inl e, tr1) \<Rightarrow> False)"

definition selection ::
  "track list \<Rightarrow> string list option \<Rightarrow> string list option \<Rightarrow> err + track list" where
  "selection subs whitelist lang_priority =
     (if list_or whitelist [] \<noteq> [] then whitelist_loop subs (list_or whitelist []) []
      else (case select_by_priority subs (list_or lang_priority [''en'', ''zh'', ''other'']) of
              Inl e \<Rightarrow> Inl e
            | Inr (selected, picked) \<Rightarrow> Inr selected))"

text \<open>The whitelist rule in the words of the specification, on a language code.\<close>

definition whitelisted :: "string list \<Rightarrow> json \<Rightarrow> bool" where
  "whitelisted wl l =
     list_ex (\<lambda>e. l = JStr e \<or> (endswith e ''-'' \<and> (case l of JStr s \<Rightarrow> startswith s e | _ \<Rightarrow> False))) wl"

text \<open>
  Example worlds: the metadata lookup answers with the numbers 7 and 9, the three
  endpoints with the documents given, and the payload has three entries, the second
  one blank. A short link redirects to a video page; an address without a scheme is
  refused by \<open>requests.get\<close>.
\<close>

definition ok_response :: "json \<Rightarrow> err + response" where
  "ok_response v = Inr \<lparr>status_code = 200, json_body = Some v\<rparr>"

definition tracks_doc :: "(string \<times> string) list \<Rightarrow> json" where
  "tracks_doc ts =
     JObj [(''code'', JInt 0),
           (''data'', JObj [(''subtitle'', JObj [(''subtitles'',
              JArr (map (\<lambda>(l, u). JObj [(''lan'', JStr l), (''subtitle_url'', JStr u)]) ts))])])]"

definition two_tracks :: json where
  "two_tracks = tracks_doc [(''en-US'', ''u1''), (''zh-CN'', ''u2'')]"

definition no_tracks :: json where
  "no_tracks = tracks_doc []"

definition error_doc :: json where
  "error_doc = JObj [(''code'', JInt (- 400)), (''message'', JStr ''denied'')]"

definition demo_entries :: "json list" where
  "demo_entries =
     [JObj [(''from'', JFloat (Finite 0)), (''to'', JFloat (Finite (3 / 2))),
            (''content'', JStr '' hello '')],
      JObj [(''from'', JFloat (Finite (3 / 2))), (''to'', JFloat (Finite 2)),
            (''content'', JStr ''  '')],
      JObj [(''from'', JFloat (Finite 61)), (''to'', JFloat (Finite (3725 + 1 / 4))),
            (''content'', JStr ''world'')]]"

definition demo_payload :: json where
  "demo_payload = JObj [(''body'', JArr demo_entries)]"

definition demo_world :: "json \<Rightarrow> json \<Rightarrow> json \<Rightarrow> world" where
  "demo_world a b c =
     \<lparr>get_short = (\<lambda>u. if has_scheme u
                         then Inr (Some ''https://www.bilibili.com/video/BV1xx411c7mD'')
                         else Inl (RequestException ''MissingSchema'')),
      get_view = (\<lambda>bvid. ok_response
         (JObj [(''code'', JInt 0), (''data'', JObj [(''aid'', JInt 7), (''cid'', JInt 9)])])),
      get_web = (\<lambda>aid cid. ok_response a),
      get_v2 = (\<lambda>aid cid. ok_response b),
      get_dm = (\<lambda>cid. ok_response c),
      get_sub = (\<lambda>u. ok_response demo_payload),
      int_of_str = (\<lambda>s. None),
      float_of_str = (\<lambda>s. None)\<rparr>"

section \<open>Language categories\<close>

lemma en_zh_exclusive: "\<not> (en_rule l \<and> zh_rule l)"
  by (auto simp: en_rule_def zh_rule_def startswith_def prefix_def)

lemma categorize_language_str:
  "categorize_language (JStr s) =
     Inr (if en_rule (lower s) then ''en'' else if zh_rule (lower s) then ''zh'' else ''other'')"
  by (cases "s = []")
     (auto simp: categorize_language_def py_or_def en_rule_def zh_rule_def Let_def lower_def
        startswith_def)

lemma categorize_language_range:
  "categorize_language v = Inr c \<Longrightarrow> c = ''en'' \<or> c = ''zh'' \<or> c = ''other''"
  by (auto simp: categorize_language_def Let_def split: json.splits if_splits)

lemma lower_lower: "lower (lower s) = lower s"
  by (induction s) (auto simp: lower_def lower_char_def is_upper_def)

text \<open>
  C4, as stated, fails: the code \<open>eng\<close> is prefixed with \<open>en\<close> and is classified as
  \<open>other\<close>.
\<close>

theorem categorize_language_en_prefix_counterexample:
  "startswith (lower ''eng'') ''en'' \<and> categorize_language (JStr ''eng'') = Inr ''other''"
  by (simp add: categorize_language_def py_or_def lower_def lower_char_def is_upper_def
        startswith_def)

text \<open>
  C4, amended: categorization maps every language-code string to exactly one of
  \<open>en\<close>, \<open>zh\<close>, \<open>other\<close>, and does not depend on the case of the code. A code is \<open>en\<close>
  exactly when, in lower case, it starts with \<open>ai-en\<close>, is \<open>en\<close>, or starts with \<open>en-\<close>;
  it is \<open>zh\<close> exactly when the same holds with \<open>zh\<close>; every other code is \<open>other\<close>.
\<close>

theorem categorize_language_total_exclusive:
  "categorize_language (JStr s) \<in> {Inr ''en'', Inr ''zh'', Inr ''other''}
   \<and> (categorize_language (JStr s) = Inr ''en'') = en_rule (lower s)
   \<and> (categorize_language (JStr s) = Inr ''zh'') = zh_rule (lower s)
   \<and> (categorize_language (JStr s) = Inr ''other'')
        = (\<not> en_rule (lower s) \<and> \<not> zh_rule (lower s))
   \<and> categorize_language (JStr (lower s)) = categorize_language (JStr s)"
  using en_zh_exclusive [of "lower s"]
  by (auto simp: categorize_language_str lower_lower)

section \<open>Priority selection\<close>

lemma fill_buckets_appends:
  assumes "str_lans subs" and "b ''en'' \<noteq> None" and "b ''zh'' \<noteq> None" and "b ''other'' \<noteq> None"
  shows "\<exists>b'. fill_buckets subs b = Inr b' \<and>
           (\<forall>c. b' c = (case b c of None \<Rightarrow> None | Some l \<Rightarrow> Some (l @ bucket_of subs c)))"
  using assms
proof (induction subs arbitrary: b)
  case Nil
  then show ?case by (auto simp: bucket_of_def split: option.splits)
next
  case (Cons it subs)
  from Cons.prems(1) obtain s where s: "lan it = JStr s" and rest: "str_lans subs"
    by (auto simp: str_lans_def is_str_def split: json.splits)
  obtain c where c: "categorize_language (lan it) = Inr c"
    using s categorize_language_str by simp
  then have "c = ''en'' \<or> c = ''zh'' \<or> c = ''other''"
    by (rule categorize_language_range)
  with Cons.prems obtain l where l: "b c = Some l" by auto
  let ?b = "b(c \<mapsto> l @ [it])"
  have "?b ''en'' \<noteq> None" "?b ''zh'' \<noteq> None" "?b ''other'' \<noteq> None"
    using Cons.prems by auto
  from Cons.IH [OF rest this] obtain b' where
    b': "fill_buckets subs ?b = Inr b'"
        "\<forall>d. b' d = (case ?b d of None \<Rightarrow> None | Some l \<Rightarrow> Some (l @ bucket_of subs d))"
    by blast
  have "fill_buckets (it # subs) b = Inr b'"
    using c l b' by simp
  moreover have "b' d = (case b d of None \<Rightarrow> None | Some l \<Rightarrow> Some (l @ bucket_of (it # subs) d))"
    for d
    using b'(2) [rule_format, of d] c l by (auto simp: bucket_of_def split: option.splits)
  ultimately show ?case by blast
qed

lemma first_bucket_find:
  "first_bucket b priority =
     (case find (\<lambda>p. case b p of None \<Rightarrow> False | Some l \<Rightarrow> l \<noteq> []) priority of
        None \<Rightarrow> ([], [])
      | Some q \<Rightarrow> (the (b q), q))"
  by (induction priority) (auto split: option.splits)

lemma bucket_of_other_key:
  "c \<noteq> ''en'' \<Longrightarrow> c \<noteq> ''zh'' \<Longrightarrow> c \<noteq> ''other'' \<Longrightarrow> bucket_of subs c = []"
  by (auto simp: bucket_of_def filter_empty_conv dest: categorize_language_range)

lemma select_by_priority_find:
  assumes "str_lans subs"
  shows "select_by_priority subs priority =
     Inr (case find (\<lambda>p. bucket_of subs p \<noteq> []) priority of
            None \<Rightarrow> ([], [])
          | Some q \<Rightarrow> (bucket_of subs q, q))"
proof -
  from fill_buckets_appends [OF assms, of buckets0] obtain b' where
    b': "fill_buckets subs buckets0 = Inr b'"
        "\<forall>c. b' c = (case buckets0 c of None \<Rightarrow> None | Some l \<Rightarrow> Some (l @ bucket_of subs c))"
    by (auto simp: buckets0_def)
  have key: "(case b' p of None \<Rightarrow> False | Some l \<Rightarrow> l \<noteq> []) = (bucket_of subs p \<noteq> [])" for p
    using b'(2) [rule_format, of p] bucket_of_other_key [of p subs]
    by (auto simp: buckets0_def split: option.splits if_splits)
  have val: "bucket_of subs q \<noteq> [] \<Longrightarrow> the (b' q) = bucket_of subs q" for q
    using b'(2) [rule_format, of q] bucket_of_other_key [of q subs]
    by (auto simp: buckets0_def split: option.splits if_splits)
  have "first_bucket b' priority =
      (case find (\<lambda>p. bucket_of subs p \<noteq> []) priority of
         None \<Rightarrow> ([], [])
       | Some q \<Rightarrow> (bucket_of subs q, q))"
    unfolding first_bucket_find key
    by (auto split: option.splits dest!: find_Some_iff [THEN iffD1] simp: val)
  then show ?thesis
    using b'(1) by (simp add: select_by_priority_def)
qed

text \<open>
  C3: on tracks whose language codes are strings, priority selection returns the whole
  bucket (the tracks of the category, in their original order) of the first priority
  entry whose bucket is non-empty, with that entry; it returns the empty selection when
  there is no such entry; and every track of a returned selection has the returned
  category.
\<close>

theorem select_by_priority_first_bucket:
  assumes "str_lans subs"
  shows "select_by_priority subs priority =
           Inr (case find (\<lambda>p. bucket_of subs p \<noteq> []) priority of
                  None \<Rightarrow> ([], [])
                | Some q \<Rightarrow> (bucket_of subs q, q))
         \<and> (\<forall>sel p. select_by_priority subs priority = Inr (sel, p) \<longrightarrow>
               (\<forall>t \<in> set sel. categorize_language (lan t) = Inr p))"
proof -
  have eq: "select_by_priority subs priority =
           Inr (case find (\<lambda>p. bucket_of subs p \<noteq> []) priority of
                  None \<Rightarrow> ([], [])
                | Some q \<Rightarrow> (bucket_of subs q, q))"
    by (rule select_by_priority_find [OF assms])
  have "\<forall>t \<in> set sel. categorize_language (lan t) = Inr p"
    if "select_by_priority subs priority = Inr (sel, p)" for sel p
    using that unfolding eq by (auto simp: bucket_of_def split: option.splits)
  with eq show ?thesis by blast
qed

theorem select_by_priority_first_bucket_witness:
  "str_lans demo_tracks
   \<and> select_by_priority demo_tracks [''fr'', ''zh'', ''en''] =
       Inr ([\<lparr>lan = JStr ''zh-CN'', url = JStr ''u1''\<rparr>,
             \<lparr>lan = JStr ''zh-Hans'', url = JStr ''u3''\<rparr>], ''zh'')
   \<and> categorize_language (lan \<lparr>lan = JStr ''zh-CN'', url = JStr ''u1''\<rparr>) = Inr ''zh''
   \<and> categorize_language (lan \<lparr>lan = JStr ''zh-Hans'', url = JStr ''u3''\<rparr>) = Inr ''zh''"
proof -
  have h: "str_lans demo_tracks"
    by (simp add: str_lans_def demo_tracks_def is_str_def)
  have b: "bucket_of demo_tracks ''fr'' = []"
    "bucket_of demo_tracks ''zh'' =
       [\<lparr>lan = JStr ''zh-CN'', url = JStr ''u1''\<rparr>, \<lparr>lan = JStr ''zh-Hans'', url = JStr ''u3''\<rparr>]"
    by (simp_all add: bucket_of_def demo_tracks_def categorize_language_def py_or_def
          lower_def lower_char_def is_upper_def startswith_def)
  from select_by_priority_first_bucket [OF h, of "[''fr'', ''zh'', ''en'']"]
  have sel: "select_by_priority demo_tracks [''fr'', ''zh'', ''en''] =
       Inr ([\<lparr>lan = JStr ''zh-CN'', url = JStr ''u1''\<rparr>,
             \<lparr>lan = JStr ''zh-Hans'', url = JStr ''u3''\<rparr>], ''zh'')"
    and cat: "\<forall>sel p. select_by_priority demo_tracks [''fr'', ''zh'', ''en''] = Inr (sel, p) \<longrightarrow>
               (\<forall>t \<in> set sel. categorize_language (lan t) = Inr p)"
    by (simp_all add: b)
  from cat sel have "\<forall>t \<in> set [\<lparr>lan = JStr ''zh-CN'', url = JStr ''u1''\<rparr>,
             \<lparr>lan = JStr ''zh-Hans'', url = JStr ''u3''\<rparr>]. categorize_language (lan t) = Inr ''zh''"
    by blast
  with h sel show ?thesis by simp
qed

section \<open>The network functions and the entry point\<close>

lemma request_then_pure:
  "io_bind (requests_get rq a) (\<lambda>resp. io_lift (g resp)) tr =
     (answer (io_bind (requests_get rq a) (\<lambda>resp. io_lift (g resp))), tr @ [rq])"
  by (simp add: io_bind_def requests_get_def io_lift_def answer_def split: sum.splits)

lemma download_run:
  "download_subtitle_plaintext w u tr =
     (answer (download_subtitle_plaintext w u), tr @ [GetSubtitle u])"
  unfolding download_subtitle_plaintext_def by (rule request_then_pure)

lemma web_run:
  "get_subtitle_list_web w aid cid tr =
     (answer (get_subtitle_list_web w aid cid), tr @ [GetWeb aid cid])"
  unfolding get_subtitle_list_web_def by (rule request_then_pure)

lemma v2_run:
  "get_subtitle_list_player_v2 w aid cid tr =
     (answer (get_subtitle_list_player_v2 w aid cid), tr @ [GetV2 aid cid])"
  unfolding get_subtitle_list_player_v2_def by (rule request_then_pure)

lemma dm_run:
  "get_subtitle_list_app_dmview_json w cid tr =
     (answer (get_subtitle_list_app_dmview_json w cid), tr @ [GetDm cid])"
  unfolding get_subtitle_list_app_dmview_json_def by (rule request_then_pure)

lemma enumerate_subs_cases:
  "enumerate_subs w aid cid tr =
     (case answer (get_subtitle_list_web w aid cid) of
        Inl e \<Rightarrow> (Inl e, tr @ [GetWeb aid cid])
      | Inr subs \<Rightarrow>
          if subs \<noteq> [] then (Inr subs, tr @ [GetWeb aid cid])
          else (case answer (get_subtitle_list_player_v2 w aid cid) of
                  Inl e \<Rightarrow> (Inl e, tr @ [GetWeb aid cid, GetV2 aid cid])
                | Inr subs \<Rightarrow>
                    if subs \<noteq> [] then (Inr subs, tr @ [GetWeb aid cid, GetV2 aid cid])
                    else (answer (get_subtitle_list_app_dmview_json w cid),
                          tr @ [GetWeb aid cid, GetV2 aid cid, GetDm cid])))"
  by (simp add: enumerate_subs_def io_bind_def io_return_def web_run v2_run dm_run
        split: sum.splits)

lemma fetch_pick_cases:
  "fetch_pick w (pick # rest) tr =
     (case download_subtitle_plaintext w (url pick) tr of
        (Inl e, t) \<Rightarrow> (Inl e, t)
      | (Inr plain, t) \<Rightarrow>
          (Inr \<lparr>code = 0, msg = MsgOk, res_text = plain, lang = py_or (lan pick) (JStr [])\<rparr>, t))"
  by (simp add: fetch_pick_def io_bind_def io_return_def split: sum.splits prod.splits)

lemma fetch_try_cases:
  "fetch_try w v whitelist lp tr =
     (case fetch_ids w v tr of
        (Inl e, t1) \<Rightarrow> (Inl e, t1)
      | (Inr (aid, cid), t1) \<Rightarrow>
          (case enumerate_subs w aid cid t1 of
             (Inl e, t2) \<Rightarrow> (Inl e, t2)
           | (Inr subs, t2) \<Rightarrow>
               if subs = [] then
                 (Inr \<lparr>code = 1, msg = MsgNoSubtitles, res_text = [], lang = JStr []\<rparr>, t2)
               else
                 (case selection subs whitelist lp of
                    Inl e \<Rightarrow> (Inl e, t2)
                  | Inr [] \<Rightarrow>
                      (Inr (if list_or whitelist [] \<noteq> []
                            then \<lparr>code = 2, msg = MsgWhitelistEmpty, res_text = [], lang = JStr []\<rparr>
                            else \<lparr>code = 3, msg = MsgPriorityEmpty, res_text = [], lang = JStr []\<rparr>), t2)
                  | Inr (pick # rest) \<Rightarrow> fetch_pick w (pick # rest) t2)))"
  by (auto simp: fetch_try_def io_bind_def io_return_def io_lift_def selection_def
        split: sum.splits prod.splits list.splits)


lemma fetch_cases:
  "fetch_bilibili_subtitle_text w v whitelist lp tr =
     (case fetch_try w v whitelist lp tr of
        (Inl e, tr') \<Rightarrow> (\<lparr>code = 99, msg = MsgException e, res_text = [], lang = JStr []\<rparr>, tr')
      | (Inr r, tr') \<Rightarrow> (r, tr'))"
  by (simp add: fetch_bilibili_subtitle_text_def catch_all_def)

lemma fetch_try_Inr_code:
  assumes "fetch_try w v whitelist lp tr = (Inr r, t)"
  shows "code r \<in> {0, 1, 2, 3} \<and> (code r \<noteq> 0 \<longrightarrow> res_text r = [] \<and> lang r = JStr [])"
  using assms
  by (auto simp: fetch_try_cases fetch_pick_cases split: sum.splits prod.splits list.splits if_splits)

text \<open>
  C1: the status code of the result is one of 0, 1, 2, 3 and 99. It is 99 exactly when
  the body of the \<open>try\<close> block raises, and the result then carries the exception in its
  message; 1 exactly when the enumeration ends with an empty track list, which is the
  case when all three endpoints give an empty list; 2 exactly when there is a whitelist
  and it selects no track; 3 exactly when there is no whitelist and priority selection
  selects no track; 0 exactly when a track is selected and its payload is downloaded
  and converted, and the result then carries the converted text and the language code
  of the first selected track.
\<close>

theorem fetch_status_codes:
  "(let r = fst (fetch_bilibili_subtitle_text w v whitelist lp tr) in
     code r \<in> {0, 1, 2, 3, 99}
     \<and> (code r = 99) = (\<exists>e tr'. fetch_try w v whitelist lp tr = (Inl e, tr'))
     \<and> (\<forall>e tr'. fetch_try w v whitelist lp tr = (Inl e, tr') \<longrightarrow>
           r = \<lparr>code = 99, msg = MsgException e, res_text = [], lang = JStr []\<rparr>)
     \<and> (code r = 1) = (\<exists>tr'. enumerated w v tr [] tr')
     \<and> (\<forall>aid cid tr1. fetch_ids w v tr = (Inr (aid, cid), tr1)
           \<and> answer (get_subtitle_list_web w aid cid) = Inr []
           \<and> answer (get_subtitle_list_player_v2 w aid cid) = Inr []
           \<and> answer (get_subtitle_list_app_dmview_json w cid) = Inr [] \<longrightarrow>
           r = \<lparr>code = 1, msg = MsgNoSubtitles, res_text = [], lang = JStr []\<rparr>)
     \<and> (code r = 2) = (\<exists>subs tr'. enumerated w v tr subs tr' \<and> subs \<noteq> []
           \<and> list_or whitelist [] \<noteq> [] \<and> selection subs whitelist lp = Inr [])
     \<and> (code r = 3) = (\<exists>subs tr'. enumerated w v tr subs tr' \<and> subs \<noteq> []
           \<and> list_or whitelist [] = [] \<and> selection subs whitelist lp = Inr [])
     \<and> (code r = 0) = (\<exists>subs tr' pick rest plain. enumerated w v tr subs tr' \<and> subs \<noteq> []
           \<and> selection subs whitelist lp = Inr (pick # rest)
           \<and> answer (download_subtitle_plaintext w (url pick)) = Inr plain)
     \<and> (\<forall>subs tr' pick rest plain. enumerated w v tr subs tr' \<and> subs \<noteq> []
           \<and> selection subs whitelist lp = Inr (pick # rest)
           \<and> answer (download_subtitle_plaintext w (url pick)) = Inr plain \<longrightarrow>
           r = \<lparr>code = 0, msg = MsgOk, res_text = plain, lang = py_or (lan pick) (JStr [])\<rparr>))"
proof -
  let ?r = "fst (fetch_bilibili_subtitle_text w v whitelist lp tr)"
  have range: "code ?r \<in> {0, 1, 2, 3, 99}"
    using fetch_try_Inr_code [of w v whitelist lp tr]
    by (auto simp: fetch_cases split: sum.splits prod.splits)
  have c99: "(code ?r = 99) = (\<exists>e tr'. fetch_try w v whitelist lp tr = (Inl e, tr'))"
    using fetch_try_Inr_code [of w v whitelist lp tr]
    by (auto simp: fetch_cases split: sum.splits prod.splits)
  have m99: "?r = \<lparr>code = 99, msg = MsgException e, res_text = [], lang = JStr []\<rparr>"
    if "fetch_try w v whitelist lp tr = (Inl e, tr')" for e tr'
    using that by (simp add: fetch_cases)
  have c1: "(code ?r = 1) = (\<exists>tr'. enumerated w v tr [] tr')"
    by (auto simp: fetch_cases fetch_try_cases fetch_pick_cases enumerated_def download_run
          split: sum.splits prod.splits list.splits if_splits)
  have e1: "?r = \<lparr>code = 1, msg = MsgNoSubtitles, res_text = [], lang = JStr []\<rparr>"
    if "fetch_ids w v tr = (Inr (aid, cid), tr1)"
      "answer (get_subtitle_list_web w aid cid) = Inr []"
      "answer (get_subtitle_list_player_v2 w aid cid) = Inr []"
      "answer (get_subtitle_list_app_dmview_json w cid) = Inr []" for aid cid tr1
    using that by (simp add: fetch_cases fetch_try_cases enumerate_subs_cases)
  have c2: "(code ?r = 2) = (\<exists>subs tr'. enumerated w v tr subs tr' \<and> subs \<noteq> []
           \<and> list_or whitelist [] \<noteq> [] \<and> selection subs whitelist lp = Inr [])"
    by (auto simp: fetch_cases fetch_try_cases fetch_pick_cases enumerated_def download_run
          split: sum.splits prod.splits list.splits if_splits)
  have c3: "(code ?r = 3) = (\<exists>subs tr'. enumerated w v tr subs tr' \<and> subs \<noteq> []
           \<and> list_or whitelist [] = [] \<and> selection subs whitelist lp = Inr [])"
    by (auto simp: fetch_cases fetch_try_cases fetch_pick_cases enumerated_def download_run
          split: sum.splits prod.splits list.splits if_splits)
  have c0: "(code ?r = 0) = (\<exists>subs tr' pick rest plain. enumerated w v tr subs tr' \<and> subs \<noteq> []
           \<and> selection subs whitelist lp = Inr (pick # rest)
           \<and> answer (download_subtitle_plaintext w (url pick)) = Inr plain)"
    by (auto simp: fetch_cases fetch_try_cases fetch_pick_cases enumerated_def download_run
          split: sum.splits prod.splits list.splits if_splits)
  have e0: "?r = \<lparr>code = 0, msg = MsgOk, res_text = plain, lang = py_or (lan pick) (JStr [])\<rparr>"
    if "enumerated w v tr subs tr'" "subs \<noteq> []" "selection subs whitelist lp = Inr (pick # rest)"
       "answer (download_subtitle_plaintext w (url pick)) = Inr plain" for subs tr' pick rest plain
    using that
    by (auto simp: fetch_cases fetch_try_cases fetch_pick_cases enumerated_def download_run
          split: sum.splits prod.splits list.splits if_splits)
  show ?thesis
    unfolding Let_def using range c99 m99 c1 e1 c2 c3 c0 e0 by blast
qed


theorem fetch_status_codes_witness:
  "fst (fetch_bilibili_subtitle_text (demo_world two_tracks no_tracks no_tracks)
         ''BV1xx411c7mD'' (Some [''zh-'']) None []) =
     \<lparr>code = 0, msg = MsgOk, res_text = ''hello'' @ [CHR 0x0A] @ ''world'', lang = JStr ''zh-CN''\<rparr>
   \<and> fst (fetch_bilibili_subtitle_text (demo_world no_tracks error_doc no_tracks)
         ''BV1xx411c7mD'' None None []) =
     \<lparr>code = 1, msg = MsgNoSubtitles, res_text = [], lang = JStr []\<rparr>
   \<and> code (fst (fetch_bilibili_subtitle_text (demo_world two_tracks no_tracks no_tracks)
         ''BV1xx411c7mD'' (Some [''fr'']) None [])) = 2
   \<and> code (fst (fetch_bilibili_subtitle_text (demo_world two_tracks no_tracks no_tracks)
         ''BV1xx411c7mD'' None (Some [''fr'']) [])) = 3
   \<and> fst (fetch_bilibili_subtitle_text (demo_world error_doc two_tracks two_tracks)
         ''BV1xx411c7mD'' None None []) =
     \<lparr>code = 99,
      msg = MsgException (RuntimeError ''player api error'' (JInt (- 400)) (JStr ''denied'')),
      res_text = [], lang = JStr []\<rparr>"
proof -
  let ?v = "''BV1xx411c7mD''"
  let ?ok = "demo_world two_tracks no_tracks no_tracks"
  let ?subs = "[\<lparr>lan = JStr ''en-US'', url = JStr ''u1''\<rparr>, \<lparr>lan = JStr ''zh-CN'', url = JStr ''u2''\<rparr>]"
  have en: "enumerated ?ok ?v [] ?subs [GetView ?v, GetWeb 7 9]"
    by code_simp
  have ne: "?subs \<noteq> []" by simp
  have a0: "selection ?subs (Some [''zh-'']) None = Inr (\<lparr>lan = JStr ''zh-CN'', url = JStr ''u2''\<rparr> # [])"
    by code_simp
  have d0: "answer (download_subtitle_plaintext ?ok (url \<lparr>lan = JStr ''zh-CN'', url = JStr ''u2''\<rparr>))
              = Inr (''hello'' @ [CHR 0x0A] @ ''world'')"
    by code_simp
  have p0: "py_or (lan \<lparr>lan = JStr ''zh-CN'', url = JStr ''u2''\<rparr>) (JStr []) = JStr ''zh-CN''"
    by code_simp
  note T0 = fetch_status_codes [of ?ok ?v "Some [''zh-'']" None "[]", unfolded Let_def]
  from T0 en ne a0 d0 have r0: "fst (fetch_bilibili_subtitle_text ?ok ?v (Some [''zh-'']) None []) =
     \<lparr>code = 0, msg = MsgOk, res_text = ''hello'' @ [CHR 0x0A] @ ''world'', 
      lang = py_or (lan \<lparr>lan = JStr ''zh-CN'', url = JStr ''u2''\<rparr>) (JStr [])\<rparr>"
    by blast
  let ?empty = "demo_world no_tracks error_doc no_tracks"
  have i1: "fetch_ids ?empty ?v [] = (Inr (7, 9), [GetView ?v])"
    by code_simp
  have w1: "answer (get_subtitle_list_web ?empty 7 9) = Inr []"
    and v1: "answer (get_subtitle_list_player_v2 ?empty 7 9) = Inr []"
    and m1: "answer (get_subtitle_list_app_dmview_json ?empty 9) = Inr []"
    by code_simp+
  note T1 = fetch_status_codes [of ?empty ?v None None "[]", unfolded Let_def]
  from T1 i1 w1 v1 m1 have r1: "fst (fetch_bilibili_subtitle_text ?empty ?v None None []) =
     \<lparr>code = 1, msg = MsgNoSubtitles, res_text = [], lang = JStr []\<rparr>"
    by blast
  have l2: "list_or (Some [''fr'']) [] \<noteq> ([] :: string list)"
    by code_simp
  have a2: "selection ?subs (Some [''fr'']) None = Inr []"
    by code_simp
  note T2 = fetch_status_codes [of ?ok ?v "Some [''fr'']" None "[]", unfolded Let_def]
  from T2 en ne l2 a2
  have r2: "code (fst (fetch_bilibili_subtitle_text ?ok ?v (Some [''fr'']) None [])) = 2"
    by blast
  have l3: "list_or None [] = ([] :: string list)"
    by code_simp
  have a3: "selection ?subs None (Some [''fr'']) = Inr []"
    by code_simp
  note T3 = fetch_status_codes [of ?ok ?v None "Some [''fr'']" "[]", unfolded Let_def]
  from T3 en ne l3 a3
  have r3: "code (fst (fetch_bilibili_subtitle_text ?ok ?v None (Some [''fr'']) [])) = 3"
    by blast
  let ?err = "demo_world error_doc two_tracks two_tracks"
  have f9: "fetch_try ?err ?v None None [] =
     (Inl (RuntimeError ''player api error'' (JInt (- 400)) (JStr ''denied'')),
      [GetView ?v, GetWeb 7 9])"
    by code_simp
  note T9 = fetch_status_codes [of ?err ?v None None "[]", unfolded Let_def]
  from T9 f9 have r9: "fst (fetch_bilibili_subtitle_text ?err ?v None None []) =
     \<lparr>code = 99,
      msg = MsgException (RuntimeError ''player api error'' (JInt (- 400)) (JStr ''denied'')),
      res_text = [], lang = JStr []\<rparr>"
    by blast
  from r0 r1 r2 r3 r9 show ?thesis
    unfolding p0 by blast
qed

lemma web_service_error:
  assumes "get_web w aid cid = Inr resp" and "service_error resp"
  shows "\<exists>c m. answer (get_subtitle_list_web w aid cid) = Inl (RuntimeError ''player api error'' c m)"
  using assms
  by (auto simp: answer_def get_subtitle_list_web_def io_bind_def requests_get_def io_lift_def
        err_bind_def raise_for_status_def resp_json_def service_error_def
        split: option.splits json.splits)

lemma v2_service_error:
  assumes "get_v2 w aid cid = Inr resp" and "service_error resp"
  shows "answer (get_subtitle_list_player_v2 w aid cid) = Inr []"
  using assms
  by (auto simp: answer_def get_subtitle_list_player_v2_def io_bind_def requests_get_def io_lift_def
        err_bind_def raise_for_status_def resp_json_def service_error_def
        split: option.splits json.splits)

lemma dm_service_error:
  assumes "get_dm w cid = Inr resp" and "service_error resp"
  shows "answer (get_subtitle_list_app_dmview_json w cid) = Inr []"
  using assms
  by (auto simp: answer_def get_subtitle_list_app_dmview_json_def io_bind_def requests_get_def io_lift_def
        err_bind_def raise_for_status_def resp_json_def service_error_def
        split: option.splits json.splits)

text \<open>
  C2: the enumeration asks the web-player endpoint first and returns its track list
  when that is non-empty, with no other request; otherwise it asks player-v2, and
  returns its list when that is non-empty; otherwise it asks danmaku-view and returns
  its list, empty or not, so three empty lists give the empty result and no exception.
  A service-level error of the first endpoint raises, with no further request; a
  service-level error of the second or of the third endpoint is an empty list.
\<close>

theorem enumerate_subs_fallback:
  "(\<forall>subs. answer (get_subtitle_list_web w aid cid) = Inr subs \<and> subs \<noteq> [] \<longrightarrow>
      enumerate_subs w aid cid tr = (Inr subs, tr @ [GetWeb aid cid]))
   \<and> (\<forall>subs. answer (get_subtitle_list_web w aid cid) = Inr []
         \<and> answer (get_subtitle_list_player_v2 w aid cid) = Inr subs \<and> subs \<noteq> [] \<longrightarrow>
      enumerate_subs w aid cid tr = (Inr subs, tr @ [GetWeb aid cid, GetV2 aid cid]))
   \<and> (\<forall>subs. answer (get_subtitle_list_web w aid cid) = Inr []
         \<and> answer (get_subtitle_list_player_v2 w aid cid) = Inr []
         \<and> answer (get_subtitle_list_app_dmview_json w cid) = Inr subs \<longrightarrow>
      enumerate_subs w aid cid tr = (Inr subs, tr @ [GetWeb aid cid, GetV2 aid cid, GetDm cid]))
   \<and> (\<forall>resp. get_web w aid cid = Inr resp \<and> service_error resp \<longrightarrow>
      (\<exists>c m. enumerate_subs w aid cid tr =
         (Inl (RuntimeError ''player api error'' c m), tr @ [GetWeb aid cid])))
   \<and> (\<forall>resp. get_v2 w aid cid = Inr resp \<and> service_error resp \<longrightarrow>
      answer (get_subtitle_list_player_v2 w aid cid) = Inr [])
   \<and> (\<forall>resp. get_dm w cid = Inr resp \<and> service_error resp \<longrightarrow>
      answer (get_subtitle_list_app_dmview_json w cid) = Inr [])"
proof (intro conjI allI impI)
  fix resp assume "get_web w aid cid = Inr resp \<and> service_error resp"
  then obtain c m where
    "answer (get_subtitle_list_web w aid cid) = Inl (RuntimeError ''player api error'' c m)"
    using web_service_error by blast
  then show "\<exists>c m. enumerate_subs w aid cid tr =
         (Inl (RuntimeError ''player api error'' c m), tr @ [GetWeb aid cid])"
    by (simp add: enumerate_subs_cases)
qed (auto simp: enumerate_subs_cases v2_service_error dm_service_error)

theorem enumerate_subs_fallback_witness:
  "enumerate_subs (demo_world two_tracks two_tracks two_tracks) 7 9 [] =
     (Inr [\<lparr>lan = JStr ''en-US'', url = JStr ''u1''\<rparr>, \<lparr>lan = JStr ''zh-CN'', url = JStr ''u2''\<rparr>],
      [GetWeb 7 9])
   \<and> enumerate_subs (demo_world no_tracks two_tracks two_tracks) 7 9 [] =
     (Inr [\<lparr>lan = JStr ''en-US'', url = JStr ''u1''\<rparr>, \<lparr>lan = JStr ''zh-CN'', url = JStr ''u2''\<rparr>],
      [GetWeb 7 9, GetV2 7 9])
   \<and> enumerate_subs (demo_world no_tracks error_doc no_tracks) 7 9 [] =
     (Inr [], [GetWeb 7 9, GetV2 7 9, GetDm 9])
   \<and> (\<exists>c m. enumerate_subs (demo_world error_doc two_tracks two_tracks) 7 9 [] =
         (Inl (RuntimeError ''player api error'' c m), [GetWeb 7 9]))
   \<and> answer (get_subtitle_list_player_v2 (demo_world no_tracks error_doc no_tracks) 7 9) = Inr []
   \<and> answer (get_subtitle_list_app_dmview_json (demo_world no_tracks no_tracks error_doc) 9) = Inr []"
proof -
  let ?two = "[\<lparr>lan = JStr ''en-US'', url = JStr ''u1''\<rparr>, \<lparr>lan = JStr ''zh-CN'', url = JStr ''u2''\<rparr>]"
  have ne: "?two \<noteq> []" by simp
  have se: "service_error \<lparr>status_code = 200, json_body = Some error_doc\<rparr>"
    by code_simp
  have a: "answer (get_subtitle_list_web (demo_world two_tracks two_tracks two_tracks) 7 9) = Inr ?two"
    by code_simp
  from enumerate_subs_fallback [of "demo_world two_tracks two_tracks two_tracks" 7 9 "[]"] a ne
  have c1: "enumerate_subs (demo_world two_tracks two_tracks two_tracks) 7 9 [] = (Inr ?two, [] @ [GetWeb 7 9])"
    by blast
  have b: "answer (get_subtitle_list_web (demo_world no_tracks two_tracks two_tracks) 7 9) = Inr []"
    "answer (get_subtitle_list_player_v2 (demo_world no_tracks two_tracks two_tracks) 7 9) = Inr ?two"
    by code_simp+
  from enumerate_subs_fallback [of "demo_world no_tracks two_tracks two_tracks" 7 9 "[]"] b ne
  have c2: "enumerate_subs (demo_world no_tracks two_tracks two_tracks) 7 9 [] =
      (Inr ?two, [] @ [GetWeb 7 9, GetV2 7 9])"
    by blast
  have g: "get_v2 (demo_world no_tracks error_doc no_tracks) 7 9 =
             Inr \<lparr>status_code = 200, json_body = Some error_doc\<rparr>"
    by (simp add: demo_world_def ok_response_def)
  note T = enumerate_subs_fallback [of "demo_world no_tracks error_doc no_tracks" 7 9 "[]"]
  from T g se
  have c5: "answer (get_subtitle_list_player_v2 (demo_world no_tracks error_doc no_tracks) 7 9) = Inr []"
    by blast
  have d: "answer (get_subtitle_list_web (demo_world no_tracks error_doc no_tracks) 7 9) = Inr []"
    "answer (get_subtitle_list_app_dmview_json (demo_world no_tracks error_doc no_tracks) 9) = Inr []"
    by code_simp+
  from T d c5
  have c3: "enumerate_subs (demo_world no_tracks error_doc no_tracks) 7 9 [] =
      (Inr [], [] @ [GetWeb 7 9, GetV2 7 9, GetDm 9])"
    by blast
  have gw: "get_web (demo_world error_doc two_tracks two_tracks) 7 9 =
             Inr \<lparr>status_code = 200, json_body = Some error_doc\<rparr>"
    by (simp add: demo_world_def ok_response_def)
  from enumerate_subs_fallback [of "demo_world error_doc two_tracks two_tracks" 7 9 "[]"] gw se
  have c4: "\<exists>c m. enumerate_subs (demo_world error_doc two_tracks two_tracks) 7 9 [] =
         (Inl (RuntimeError ''player api error'' c m), [] @ [GetWeb 7 9])"
    by blast
  have gd: "get_dm (demo_world no_tracks no_tracks error_doc) 9 =
             Inr \<lparr>status_code = 200, json_body = Some error_doc\<rparr>"
    by (simp add: demo_world_def ok_response_def)
  from enumerate_subs_fallback [of "demo_world no_tracks no_tracks error_doc" 7 9 "[]"] gd se
  have c6: "answer (get_subtitle_list_app_dmview_json (demo_world no_tracks no_tracks error_doc) 9) = Inr []"
    by blast
  from c1 c2 c3 c4 c5 c6 show ?thesis by simp
qed

text \<open>
  C10: a result whose status code is not 0 has status 1, 2, 3 or 99, an empty text and
  an empty language code.
\<close>

theorem fetch_failure_is_empty:
  "code (fst (fetch_bilibili_subtitle_text w v whitelist lp tr)) \<noteq> 0 \<longrightarrow>
     code (fst (fetch_bilibili_subtitle_text w v whitelist lp tr)) \<in> {1, 2, 3, 99}
     \<and> res_text (fst (fetch_bilibili_subtitle_text w v whitelist lp tr)) = []
     \<and> lang (fst (fetch_bilibili_subtitle_text w v whitelist lp tr)) = JStr []"
  using fetch_try_Inr_code [of w v whitelist lp tr]
  by (auto simp: fetch_cases split: sum.splits prod.splits)

theorem fetch_failure_is_empty_witness:
  "code (fst (fetch_bilibili_subtitle_text (demo_world two_tracks no_tracks no_tracks)
         ''BV1xx411c7mD'' (Some [''fr'']) None [])) = 2
   \<and> res_text (fst (fetch_bilibili_subtitle_text (demo_world two_tracks no_tracks no_tracks)
         ''BV1xx411c7mD'' (Some [''fr'']) None [])) = []
   \<and> lang (fst (fetch_bilibili_subtitle_text (demo_world two_tracks no_tracks no_tracks)
         ''BV1xx411c7mD'' (Some [''fr'']) None [])) = JStr []"
proof -
  have c: "code (fst (fetch_bilibili_subtitle_text (demo_world two_tracks no_tracks no_tracks)
         ''BV1xx411c7mD'' (Some [''fr'']) None [])) = 2"
    by code_simp
  then have "code (fst (fetch_bilibili_subtitle_text (demo_world two_tracks no_tracks no_tracks)
         ''BV1xx411c7mD'' (Some [''fr'']) None [])) \<noteq> 0"
    by simp
  with fetch_failure_is_empty [of "demo_world two_tracks no_tracks no_tracks"
         "''BV1xx411c7mD''" "Some [''fr'']" None "[]"] c
  show ?thesis by blast
qed

lemma whitelist_match_str:
  "whitelist_match (JStr s) wl = Inr (whitelisted wl (JStr s))"
  by (induction wl) (auto simp: whitelisted_def)

lemma whitelist_loop_filter:
  "str_lans subs \<Longrightarrow>
   whitelist_loop subs wl selected = Inr (selected @ filter (\<lambda>t. whitelisted wl (lan t)) subs)"
proof (induction subs arbitrary: selected)
  case Nil
  then show ?case by simp
next
  case (Cons it subs)
  from Cons.prems obtain s where s: "lan it = JStr s" and rest: "str_lans subs"
    by (auto simp: str_lans_def is_str_def split: json.splits)
  have "py_or (lan it) (JStr []) = JStr s"
    using s by (cases "s = []") (simp_all add: py_or_def)
  then show ?case
    using Cons.IH [OF rest] s by (simp add: err_bind_def whitelist_match_str)
qed

text \<open>
  C5: when the enumeration gave a non-empty list of tracks with string language codes
  and a non-empty whitelist is supplied, the selection is the list of the tracks, in
  their order, whose code equals a whitelist entry or starts with a whitelist entry
  that ends with \<open>-\<close>. When no track matches, the result has status 2; otherwise the
  first selected track is downloaded. The result is the same for every priority list.
\<close>

theorem whitelist_overrides_priority:
  "enumerated w v tr subs tr' \<and> subs \<noteq> [] \<and> str_lans subs \<and> wl \<noteq> [] \<longrightarrow>
     selection subs (Some wl) lp = Inr (filter (\<lambda>t. whitelisted wl (lan t)) subs)
     \<and> fetch_bilibili_subtitle_text w v (Some wl) lp tr =
         (if filter (\<lambda>t. whitelisted wl (lan t)) subs = []
          then (\<lparr>code = 2, msg = MsgWhitelistEmpty, res_text = [], lang = JStr []\<rparr>, tr')
          else catch_all (fetch_pick w (filter (\<lambda>t. whitelisted wl (lan t)) subs)) tr')
     \<and> fetch_bilibili_subtitle_text w v (Some wl) lp tr =
         fetch_bilibili_subtitle_text w v (Some wl) lp' tr"
proof (intro impI)
  assume h: "enumerated w v tr subs tr' \<and> subs \<noteq> [] \<and> str_lans subs \<and> wl \<noteq> []"
  let ?sel = "filter (\<lambda>t. whitelisted wl (lan t)) subs"
  have sel: "selection subs (Some wl) p = Inr ?sel" for p
    using h by (simp add: selection_def list_or_def whitelist_loop_filter)
  have run: "fetch_bilibili_subtitle_text w v (Some wl) p tr =
         (if ?sel = []
          then (\<lparr>code = 2, msg = MsgWhitelistEmpty, res_text = [], lang = JStr []\<rparr>, tr')
          else catch_all (fetch_pick w ?sel) tr')" for p
    using h sel [of p]
    by (auto simp: fetch_bilibili_subtitle_text_def catch_all_def fetch_try_cases enumerated_def
          list_or_def split: sum.splits prod.splits list.splits)
  show "selection subs (Some wl) lp = Inr ?sel
     \<and> fetch_bilibili_subtitle_text w v (Some wl) lp tr =
         (if ?sel = []
          then (\<lparr>code = 2, msg = MsgWhitelistEmpty, res_text = [], lang = JStr []\<rparr>, tr')
          else catch_all (fetch_pick w ?sel) tr')
     \<and> fetch_bilibili_subtitle_text w v (Some wl) lp tr =
         fetch_bilibili_subtitle_text w v (Some wl) lp' tr"
    using sel [of lp] run [of lp] run [of lp'] by simp
qed


theorem whitelist_overrides_priority_witness:
  "enumerated (demo_world two_tracks no_tracks no_tracks) ''BV1xx411c7mD'' []
      [\<lparr>lan = JStr ''en-US'', url = JStr ''u1''\<rparr>, \<lparr>lan = JStr ''zh-CN'', url = JStr ''u2''\<rparr>]
      [GetView ''BV1xx411c7mD'', GetWeb 7 9]
   \<and> str_lans [\<lparr>lan = JStr ''en-US'', url = JStr ''u1''\<rparr>, \<lparr>lan = JStr ''zh-CN'', url = JStr ''u2''\<rparr>]
   \<and> selection [\<lparr>lan = JStr ''en-US'', url = JStr ''u1''\<rparr>, \<lparr>lan = JStr ''zh-CN'', url = JStr ''u2''\<rparr>]
         (Some [''fr'', ''zh-'']) (Some [''en'']) = Inr [\<lparr>lan = JStr ''zh-CN'', url = JStr ''u2''\<rparr>]
   \<and> fetch_bilibili_subtitle_text (demo_world two_tracks no_tracks no_tracks) ''BV1xx411c7mD''
         (Some [''fr'', ''zh-'']) (Some [''en'']) [] =
       (\<lparr>code = 0, msg = MsgOk, res_text = ''hello'' @ [CHR 0x0A] @ ''world'', lang = JStr ''zh-CN''\<rparr>,
        [GetView ''BV1xx411c7mD'', GetWeb 7 9, GetSubtitle (JStr ''u2'')])
   \<and> fetch_bilibili_subtitle_text (demo_world two_tracks no_tracks no_tracks) ''BV1xx411c7mD''
         (Some [''fr'', ''zh-'']) (Some [''en'']) [] =
       fetch_bilibili_subtitle_text (demo_world two_tracks no_tracks no_tracks) ''BV1xx411c7mD''
         (Some [''fr'', ''zh-'']) None []"
proof -
  let ?w = "demo_world two_tracks no_tracks no_tracks"
  let ?v = "''BV1xx411c7mD''"
  let ?subs = "[\<lparr>lan = JStr ''en-US'', url = JStr ''u1''\<rparr>, \<lparr>lan = JStr ''zh-CN'', url = JStr ''u2''\<rparr>]"
  let ?tr = "[GetView ?v, GetWeb 7 9]"
  let ?wl = "[''fr'', ''zh-'']"
  have en: "enumerated ?w ?v [] ?subs ?tr"
    by code_simp
  have st: "str_lans ?subs"
    by code_simp
  have ne: "?subs \<noteq> []" "?wl \<noteq> []"
    by simp_all
  have f: "filter (\<lambda>t. whitelisted ?wl (lan t)) ?subs = [\<lparr>lan = JStr ''zh-CN'', url = JStr ''u2''\<rparr>]"
    by code_simp
  have nf: "([\<lparr>lan = JStr ''zh-CN'', url = JStr ''u2''\<rparr>] = []) = False"
    by simp
  have p: "catch_all (fetch_pick ?w [\<lparr>lan = JStr ''zh-CN'', url = JStr ''u2''\<rparr>]) ?tr =
       (\<lparr>code = 0, msg = MsgOk, res_text = ''hello'' @ [CHR 0x0A] @ ''world'', lang = JStr ''zh-CN''\<rparr>,
        [GetView ''BV1xx411c7mD'', GetWeb 7 9, GetSubtitle (JStr ''u2'')])"
    by code_simp
  from whitelist_overrides_priority [of ?w ?v "[]" ?subs ?tr ?wl "Some [''en'']" None] en st ne
  have "selection ?subs (Some ?wl) (Some [''en'']) = Inr (filter (\<lambda>t. whitelisted ?wl (lan t)) ?subs)
     \<and> fetch_bilibili_subtitle_text ?w ?v (Some ?wl) (Some [''en'']) [] =
         (if filter (\<lambda>t. whitelisted ?wl (lan t)) ?subs = []
          then (\<lparr>code = 2, msg = MsgWhitelistEmpty, res_text = [], lang = JStr []\<rparr>, ?tr)
          else catch_all (fetch_pick ?w (filter (\<lambda>t. whitelisted ?wl (lan t)) ?subs)) ?tr)
     \<and> fetch_bilibili_subtitle_text ?w ?v (Some ?wl) (Some [''en'']) [] =
         fetch_bilibili_subtitle_text ?w ?v (Some ?wl) None []"
    by blast
  then have A: "selection ?subs (Some ?wl) (Some [''en'']) = Inr [\<lparr>lan = JStr ''zh-CN'', url = JStr ''u2''\<rparr>]"
    and B: "fetch_bilibili_subtitle_text ?w ?v (Some ?wl) (Some [''en'']) [] =
         catch_all (fetch_pick ?w [\<lparr>lan = JStr ''zh-CN'', url = JStr ''u2''\<rparr>]) ?tr"
    and C: "fetch_bilibili_subtitle_text ?w ?v (Some ?wl) (Some [''en'']) [] =
         fetch_bilibili_subtitle_text ?w ?v (Some ?wl) None []"
    unfolding f nf if_False by blast+
  from en st A B [unfolded p] C show ?thesis
    by blast
qed

section \<open>Reference resolver: properties\<close>

lemma match_bv_Some:
  assumes "match_bv s = Some r"
  shows "\<exists>post. s = r @ post \<and> is_bv r \<and> (post = [] \<or> \<not> is_alnum (hd post))"
proof -
  from assms have p: "prefix ''BV'' s" and ne: "takeWhile is_alnum (drop 2 s) \<noteq> []"
    and r: "r = ''BV'' @ takeWhile is_alnum (drop 2 s)"
    by (auto simp: match_bv_def startswith_def split: if_splits)
  from p have s: "s = ''BV'' @ drop 2 s"
    by (auto simp: prefix_def)
  let ?post = "dropWhile is_alnum (drop 2 s)"
  have "s = r @ ?post"
    using s r by (metis append.assoc takeWhile_dropWhile_id)
  moreover have "is_bv r"
    using ne r by (auto simp: is_bv_def startswith_def list_all_iff dest: set_takeWhileD)
  moreover have "?post = [] \<or> \<not> is_alnum (hd ?post)"
    using hd_dropWhile [of is_alnum "drop 2 s"] by blast
  ultimately show ?thesis by blast
qed

lemma match_bv_is_bv:
  assumes "is_bv r"
  shows "match_bv (r @ post) \<noteq> None"
proof -
  from assms obtain m where r: "r = ''BV'' @ m" and m: "m \<noteq> []" "list_all is_alnum m"
    by (auto simp: is_bv_def startswith_def prefix_def)
  then obtain c cs where "m = c # cs" "is_alnum c"
    by (cases m) auto
  then show ?thesis
    using r by (simp add: match_bv_def startswith_def)
qed

lemma search_bv_Some:
  "search_bv s = Some r \<Longrightarrow>
     \<exists>pre post. s = pre @ r @ post \<and> match_bv (r @ post) = Some r
        \<and> (\<forall>k < length pre. match_bv (drop k s) = None)"
proof (induction s)
  case Nil
  then show ?case by simp
next
  case (Cons c cs)
  show ?case
  proof (cases "match_bv (c # cs)")
    case (Some m)
    with Cons.prems have mr: "m = r" by simp
    from match_bv_Some [OF Some] mr obtain post where "c # cs = r @ post" by blast
    with Some mr show ?thesis
      by (intro exI [of _ "[]"] exI [of _ post]) simp
  next
    case None
    with Cons.prems have "search_bv cs = Some r" by simp
    from Cons.IH [OF this] obtain pre post where
      e: "cs = pre @ r @ post" "match_bv (r @ post) = Some r"
         "\<forall>k < length pre. match_bv (drop k cs) = None"
      by blast
    have "\<forall>k < length (c # pre). match_bv (drop k (c # cs)) = None"
    proof (intro allI impI)
      fix k assume "k < length (c # pre)"
      then show "match_bv (drop k (c # cs)) = None"
        using None e(3) by (cases k) auto
    qed
    with e show ?thesis
      by (intro exI [of _ "c # pre"] exI [of _ post]) simp
  qed
qed

lemma search_bv_None:
  "search_bv s = None \<Longrightarrow> match_bv (drop k s) = None"
proof (induction s arbitrary: k)
  case Nil
  then show ?case by (simp add: match_bv_def startswith_def)
next
  case (Cons c cs)
  then show ?case
    by (cases k) (auto split: option.splits)
qed

lemma search_bv_finds:
  assumes "s = pre @ r @ post" and "is_bv r"
  shows "search_bv s \<noteq> None"
proof
  assume "search_bv s = None"
  from search_bv_None [OF this, of "length pre"] assms match_bv_is_bv [OF assms(2), of post]
  show False by simp
qed

lemma parse_input_to_bvid_direct:
  "search_bv s = Some r \<Longrightarrow> parse_input_to_bvid w s tr = (r, tr)"
  by (simp add: parse_input_to_bvid_def)

text \<open>
  C8: when the input contains a substring that matches the BV pattern, the resolver
  returns such a substring of the input: the one that starts first, extended as far as
  the pattern matches. It does so in every world and leaves the trace as it was: no
  request is made.
\<close>

theorem parse_input_to_bvid_first_bv:
  "(\<exists>pre r post. s = pre @ r @ post \<and> is_bv r) \<longrightarrow>
     (\<exists>pre r post. s = pre @ r @ post \<and> is_bv r
        \<and> (\<forall>pre' r' post'. s = pre' @ r' @ post' \<and> is_bv r' \<longrightarrow> length pre \<le> length pre')
        \<and> (post = [] \<or> \<not> is_alnum (hd post))
        \<and> (\<forall>w tr. parse_input_to_bvid w s tr = (r, tr)))"
proof
  assume "\<exists>pre r post. s = pre @ r @ post \<and> is_bv r"
  then obtain pre0 r0 post0 where "s = pre0 @ r0 @ post0" "is_bv r0" by blast
  from search_bv_finds [OF this] obtain r where r: "search_bv s = Some r" by auto
  from search_bv_Some [OF r] obtain pre post where
    e: "s = pre @ r @ post" "match_bv (r @ post) = Some r"
       "\<forall>k < length pre. match_bv (drop k s) = None"
    by blast
  from match_bv_Some [OF e(2)] have bv: "is_bv r" and mx: "post = [] \<or> \<not> is_alnum (hd post)"
    by auto
  have first: "length pre \<le> length pre'" if "s = pre' @ r' @ post'" "is_bv r'" for pre' r' post'
  proof (rule ccontr)
    assume "\<not> length pre \<le> length pre'"
    then have "match_bv (drop (length pre') s) = None"
      using e(3) by simp
    with that match_bv_is_bv [OF that(2), of post'] show False by simp
  qed
  from e(1) bv first mx parse_input_to_bvid_direct [OF r]
  show "\<exists>pre r post. s = pre @ r @ post \<and> is_bv r
        \<and> (\<forall>pre' r' post'. s = pre' @ r' @ post' \<and> is_bv r' \<longrightarrow> length pre \<le> length pre')
        \<and> (post = [] \<or> \<not> is_alnum (hd post))
        \<and> (\<forall>w tr. parse_input_to_bvid w s tr = (r, tr))"
    by blast
qed


theorem parse_input_to_bvid_first_bv_witness:
  "(\<exists>pre r post. ''https://b23.tv/video/BV1xx411c7mD?p=2'' = pre @ r @ post \<and> is_bv r)
   \<and> (\<exists>r. is_bv r \<and> parse_input_to_bvid (demo_world no_tracks no_tracks no_tracks)
              ''https://b23.tv/video/BV1xx411c7mD?p=2'' [] = (r, []))
   \<and> parse_input_to_bvid (demo_world no_tracks no_tracks no_tracks)
         ''https://b23.tv/video/BV1xx411c7mD?p=2'' [] = (''BV1xx411c7mD'', [])"
proof -
  let ?s = "''https://b23.tv/video/BV1xx411c7mD?p=2''"
  have bv: "is_bv ''BV1xx411c7mD''"
    by code_simp
  have "?s = ''https://b23.tv/video/'' @ ''BV1xx411c7mD'' @ ''?p=2''"
    by simp
  with bv have ex: "\<exists>pre r post. ?s = pre @ r @ post \<and> is_bv r"
    by blast
  with parse_input_to_bvid_first_bv [of ?s]
  have found: "\<exists>r. is_bv r \<and> parse_input_to_bvid (demo_world no_tracks no_tracks no_tracks) ?s [] = (r, [])"
    by blast
  have "parse_input_to_bvid (demo_world no_tracks no_tracks no_tracks) ?s [] = (''BV1xx411c7mD'', [])"
    by code_simp
  with ex found show ?thesis by blast
qed

lemma drop_token_suffix: "drop_token toks s = Some r \<Longrightarrow> suffix r s \<and> length r < length s"
  by (induction toks) (auto split: if_splits simp: prefix_def suffix_def)

lemma lstrip_by_suffix: "suffix (lstrip_by toks s) s"
proof (induction toks s rule: lstrip_by.induct)
  case (1 toks s)
  show ?case
  proof (cases "drop_token toks s")
    case None
    then show ?thesis by (simp add: lstrip_by.simps [of toks s])
  next
    case (Some r)
    with 1 have "suffix (lstrip_by toks r) r" by simp
    moreover from Some have "suffix r s" by (simp add: drop_token_suffix)
    ultimately show ?thesis
      using Some by (auto simp: lstrip_by.simps [of toks s] intro: suffix_order.trans)
  qed
qed

lemma drop_token_lstrip_by: "drop_token toks (lstrip_by toks s) = None"
proof (induction toks s rule: lstrip_by.induct)
  case (1 toks s)
  then show ?case
    by (cases "drop_token toks s") (simp_all add: lstrip_by.simps [of toks s])
qed

lemma lstrip_by_fixed: "drop_token toks s = None \<Longrightarrow> lstrip_by toks s = s"
  by (simp add: lstrip_by.simps [of toks s])

lemma drop_token_prefix_mono:
  "drop_token toks p = Some r \<Longrightarrow> prefix p x \<Longrightarrow> drop_token toks x \<noteq> None"
  by (induction toks) (auto split: if_splits)

lemma strip_strip: "strip (strip s) = strip s"
proof -
  let ?L = "lstrip_by space_tokens"
  let ?R = "lstrip_by (map rev space_tokens)"
  let ?x = "?L s"
  let ?y = "rev (?R (rev ?x))"
  have y: "strip s = ?y" by (simp add: strip_def)
  have "suffix (?R (rev ?x)) (rev ?x)" by (rule lstrip_by_suffix)
  then have pre: "prefix ?y ?x"
    by (metis rev_rev_ident suffix_to_prefix)
  have "drop_token space_tokens ?y = None"
  proof (rule ccontr)
    assume "drop_token space_tokens ?y \<noteq> None"
    then obtain r where "drop_token space_tokens ?y = Some r" by auto
    from drop_token_prefix_mono [OF this pre] show False
      by (simp add: drop_token_lstrip_by)
  qed
  then have "?L ?y = ?y" by (rule lstrip_by_fixed)
  moreover have "?R (?R (rev ?x)) = ?R (rev ?x)"
    by (rule lstrip_by_fixed) (rule drop_token_lstrip_by)
  ultimately show ?thesis
    unfolding strip_def by simp
qed

text \<open>
  C9, as stated, fails: the inputs \<open>b23.tv\<close> and \<open>www.b23.tv/abc\<close> contain a short-link
  domain and have no scheme; they are normalized to themselves and requested so.
\<close>

theorem short_link_without_path_counterexample:
  "list_ex (\<lambda>d. sublist d (strip ''b23.tv'')) short_domains
   \<and> \<not> has_scheme (strip ''b23.tv'')
   \<and> normalize_url (strip ''b23.tv'') = ''b23.tv''
   \<and> snd (parse_input_to_bvid (demo_world no_tracks no_tracks no_tracks) ''b23.tv'' []) =
        [GetShort ''b23.tv'']
   \<and> \<not> startswith ''b23.tv'' ''https://''
   \<and> list_ex (\<lambda>d. sublist d (strip ''www.b23.tv/abc'')) short_domains
   \<and> \<not> has_scheme (strip ''www.b23.tv/abc'')
   \<and> normalize_url (strip ''www.b23.tv/abc'') = ''www.b23.tv/abc''
   \<and> snd (parse_input_to_bvid (demo_world no_tracks no_tracks no_tracks) ''www.b23.tv/abc'' []) =
        [GetShort ''www.b23.tv/abc'']"
  by code_simp

text \<open>
  C9, amended: for every input whose trimmed form contains a short-link domain, has no
  URL scheme and begins, letter case ignored, with one of \<open>b23.tv\<close>, \<open>acg.tv\<close>,
  \<open>bili2233.cn\<close>, \<open>bili2233.com\<close>, \<open>bili.tv\<close>, \<open>bili.com\<close> followed by \<open>/\<close>, the
  normalized URL is \<open>https://\<close> followed by the trimmed input, and it is the only URL
  the resolver requests; it is requested when the input has no BV substring.
\<close>

theorem short_link_gets_https:
  "list_ex (\<lambda>d. sublist d (strip s)) short_domains
     \<and> \<not> has_scheme (strip s) \<and> has_link_prefix (strip s) \<longrightarrow>
   normalize_url (strip s) = ''https://'' @ strip s
   \<and> (snd (parse_input_to_bvid w s tr) = tr
       \<or> snd (parse_input_to_bvid w s tr) = tr @ [GetShort (''https://'' @ strip s)])
   \<and> (search_bv s = None \<longrightarrow>
         snd (parse_input_to_bvid w s tr) = tr @ [GetShort (''https://'' @ strip s)])"
  by (auto simp: parse_input_to_bvid_def normalize_url_def strip_strip Let_def requests_get_def
        split: option.splits sum.splits prod.splits)

theorem short_link_gets_https_witness:
  "search_bv '' b23.tv/abc '' = None
   \<and> list_ex (\<lambda>d. sublist d (strip '' b23.tv/abc '')) short_domains
   \<and> \<not> has_scheme (strip '' b23.tv/abc '')
   \<and> has_link_prefix (strip '' b23.tv/abc '')
   \<and> normalize_url (strip '' b23.tv/abc '') = ''https://b23.tv/abc''
   \<and> snd (parse_input_to_bvid (demo_world no_tracks no_tracks no_tracks) '' b23.tv/abc '' []) =
       [GetShort ''https://b23.tv/abc'']"
proof -
  have h: "search_bv '' b23.tv/abc '' = None"
    "list_ex (\<lambda>d. sublist d (strip '' b23.tv/abc '')) short_domains"
    "\<not> has_scheme (strip '' b23.tv/abc '')"
    "has_link_prefix (strip '' b23.tv/abc '')"
    by code_simp+
  have s: "strip '' b23.tv/abc '' = ''b23.tv/abc''"
    by code_simp
  from short_link_gets_https [of "'' b23.tv/abc ''" "demo_world no_tracks no_tracks no_tracks" "[]"] h
  have "normalize_url (strip '' b23.tv/abc '') = ''https://'' @ strip '' b23.tv/abc ''"
    and "snd (parse_input_to_bvid (demo_world no_tracks no_tracks no_tracks) '' b23.tv/abc '' []) =
       [] @ [GetShort (''https://'' @ strip '' b23.tv/abc '')]"
    by blast+
  with h show ?thesis
    unfolding s by simp
qed

section \<open>Conversion: properties\<close>

lemma floor_divide_rat:
  fixes r :: rat and n :: int
  assumes "0 < n"
  shows "\<lfloor>r / of_int n\<rfloor> = \<lfloor>r\<rfloor> div n"
proof -
  have "\<lfloor>r / of_int n\<rfloor> = \<lfloor>(of_rat (r / of_int n) :: real)\<rfloor>"
    by (simp only: of_rat_floor)
  also have "\<dots> = \<lfloor>(of_rat r :: real) / real_of_int n\<rfloor>"
    by (simp add: of_rat_divide)
  also have "\<dots> = \<lfloor>(of_rat r :: real)\<rfloor> div n"
    using assms by (intro floor_divide_real_eq_div) simp
  finally show ?thesis by (simp add: of_rat_floor)
qed

lemma bit_length_le: "n < 2 ^ k \<Longrightarrow> bit_length n \<le> k"
proof (induction k arbitrary: n)
  case 0
  then show ?case by simp
next
  case (Suc k)
  then have "n div 2 < 2 ^ k" by auto
  from Suc.IH [OF this] show ?case by (subst bit_length.simps) simp
qed

lemma round_half_even_bounds:
  "of_int (round_half_even x) \<le> x + 1" "x - 1 \<le> of_int (round_half_even x)"
  by (auto simp: round_half_even_def Let_def) linarith+

lemma round_half_even_nonneg: "0 \<le> x \<Longrightarrow> 0 \<le> round_half_even x"
  by (auto simp: round_half_even_def Let_def)

lemma ilog2_le_52:
  assumes "0 < x" and "x < 2 ^ 53"
  shows "ilog2 x \<le> 52"
proof (cases "1 \<le> x")
  case True
  have "\<lfloor>x\<rfloor> < 2 ^ 53"
    using assms(2) by (simp add: floor_less_iff)
  moreover have "0 \<le> \<lfloor>x\<rfloor>"
    using True by simp
  ultimately have "nat \<lfloor>x\<rfloor> < 2 ^ 53"
    by (simp add: nat_less_iff)
  from bit_length_le [OF this] show ?thesis
    using True by (simp add: ilog2_def)
next
  case False
  then show ?thesis by (simp add: ilog2_def)
qed

lemma spacing_le_1:
  assumes "x \<noteq> 0" and "\<bar>x\<bar> < 2 ^ 53"
  shows "0 < (2::rat) powi (max (ilog2 \<bar>x\<bar>) (- 1022) - 52)"
    and "(2::rat) powi (max (ilog2 \<bar>x\<bar>) (- 1022) - 52) \<le> 1"
proof -
  show "0 < (2::rat) powi (max (ilog2 \<bar>x\<bar>) (- 1022) - 52)"
    by simp
  have "ilog2 \<bar>x\<bar> \<le> 52"
    using assms by (intro ilog2_le_52) auto
  then have "max (ilog2 \<bar>x\<bar>) (- 1022) - 52 \<le> 0"
    by simp
  then show "(2::rat) powi (max (ilog2 \<bar>x\<bar>) (- 1022) - 52) \<le> 1"
    by (metis one_le_numeral power_int_0_right power_int_increasing)
qed

lemma fl64_near:
  assumes "\<bar>x\<bar> < 2 ^ 53"
  shows "\<bar>fl64 x\<bar> \<le> \<bar>x\<bar> + 1" and "0 \<le> x \<Longrightarrow> 0 \<le> fl64 x"
proof -
  show "\<bar>fl64 x\<bar> \<le> \<bar>x\<bar> + 1"
  proof (cases "x = 0")
    case True
    then show ?thesis by (simp add: fl64_def)
  next
    case False
    define q :: rat where "q = 2 powi (max (ilog2 \<bar>x\<bar>) (- 1022) - 52)"
    have q: "0 < q" "q \<le> 1"
      using spacing_le_1 [OF False assms] by (simp_all add: q_def)
    have f: "fl64 x = q * of_int (round_half_even (x / q))"
      using False by (simp add: fl64_def q_def Let_def)
    have "\<bar>of_int (round_half_even (x / q)) - x / q\<bar> \<le> (1 :: rat)"
      using round_half_even_bounds [of "x / q"] by linarith
    then have "\<bar>q * (of_int (round_half_even (x / q)) - x / q)\<bar> \<le> q * 1"
      using q(1) by (simp add: abs_mult)
    then have "\<bar>fl64 x - x\<bar> \<le> q"
      using q(1) by (simp add: f right_diff_distrib)
    with q(2) show ?thesis by linarith
  qed
  show "0 \<le> fl64 x" if "0 \<le> x"
    using that by (auto simp: fl64_def Let_def intro!: mult_nonneg_nonneg round_half_even_nonneg)
qed

lemma to_binary64_small:
  assumes "\<bar>x\<bar> \<le> 2000"
  shows "to_binary64 x = Finite (fl64 x)" and "\<bar>fl64 x\<bar> \<le> \<bar>x\<bar> + 1"
    and "0 \<le> x \<Longrightarrow> 0 \<le> fl64 x"
proof -
  have small: "\<bar>x\<bar> < 2 ^ 53"
    using assms by simp
  from fl64_near [OF small] show b: "\<bar>fl64 x\<bar> \<le> \<bar>x\<bar> + 1" and "0 \<le> x \<Longrightarrow> 0 \<le> fl64 x"
    by auto
  have "\<bar>fl64 x\<bar> \<le> 2001"
    using b assms by linarith
  then have "\<bar>fl64 x\<bar> < 2 ^ 53"
    by simp
  then have "ilog2 \<bar>fl64 x\<bar> \<le> 52"
    by (cases "fl64 x = 0") (simp add: ilog2_def, intro ilog2_le_52, simp_all)
  then show "to_binary64 x = Finite (fl64 x)"
    by (simp add: to_binary64_def Let_def)
qed

lemma fmt_time_ms:
  fixes r :: rat and n :: int
  assumes "\<bar>r - of_int n\<bar> \<le> 1"
  shows "\<exists>ms. py_round (float_mul (float_sub (Finite r) (Finite (of_int n))) (Finite 1000)) = Inr ms
           \<and> \<bar>ms\<bar> \<le> 2002 \<and> (of_int n \<le> r \<longrightarrow> 0 \<le> ms)"
proof -
  let ?d = "fl64 (r - of_int n)"
  have a: "\<bar>r - of_int n\<bar> \<le> 2000"
    using assms by simp
  note d = to_binary64_small [OF a]
  have d2: "\<bar>?d\<bar> \<le> 2"
    using d(2) assms by linarith
  then have b: "\<bar>?d * 1000\<bar> \<le> 2000"
    by (simp add: abs_mult)
  note m = to_binary64_small [OF b]
  let ?m = "fl64 (?d * 1000)"
  have run: "py_round (float_mul (float_sub (Finite r) (Finite (of_int n))) (Finite 1000))
               = Inr (round_half_even ?m)"
    by (simp add: d(1) m(1))
  have "\<bar>?m\<bar> \<le> 2001"
    using m(2) b by linarith
  then have "\<bar>(of_int (round_half_even ?m) :: rat)\<bar> \<le> 2002"
    using round_half_even_bounds [of ?m] by linarith
  then have bound: "\<bar>round_half_even ?m\<bar> \<le> 2002"
    by (metis of_int_abs of_int_le_iff of_int_numeral)
  have "0 \<le> round_half_even ?m" if "of_int n \<le> r"
  proof -
    from that have "0 \<le> ?d" by (intro d(3)) simp
    then have "0 \<le> ?m" by (intro m(3)) simp
    then show ?thesis by (rule round_half_even_nonneg)
  qed
  with run bound show ?thesis by blast
qed

lemma round_half_even_near: "\<bar>of_int (round_half_even x) - x\<bar> \<le> 1 / 2"
proof -
  have "of_int \<lfloor>x\<rfloor> \<le> x" "x < of_int \<lfloor>x\<rfloor> + 1"
    by linarith+
  then show ?thesis
    by (auto simp: round_half_even_def Let_def abs_le_iff)
qed

lemma ilog2_fraction:
  assumes "0 < x" and "x < 1"
  shows "ilog2 x \<le> - 1"
proof -
  have "1 < 1 / x"
    using assms by simp
  then have "2 \<le> \<lceil>1 / x\<rceil>"
    by linarith
  then have "nat (\<lceil>1 / x\<rceil> - 1) \<noteq> 0"
    by simp
  then have "1 \<le> bit_length (nat (\<lceil>1 / x\<rceil> - 1))"
    by (subst bit_length.simps) simp
  then show ?thesis
    using assms by (simp add: ilog2_def)
qed

lemma ilog2_below_power:
  assumes "0 < x" and "x < 2 ^ k"
  shows "ilog2 x \<le> int k - 1"
proof (cases "1 \<le> x")
  case True
  have "\<lfloor>x\<rfloor> < 2 ^ k"
    using assms(2) by (simp add: floor_less_iff)
  moreover have "0 \<le> \<lfloor>x\<rfloor>"
    using True by simp
  ultimately have "nat \<lfloor>x\<rfloor> < 2 ^ k"
    by (simp add: nat_less_iff)
  from bit_length_le [OF this] show ?thesis
    using True by (simp add: ilog2_def)
next
  case False
  with assms(1) have "ilog2 x \<le> - 1"
    by (intro ilog2_fraction) simp_all
  then show ?thesis by simp
qed

lemma fl64_error:
  assumes "\<bar>x\<bar> < 2 ^ k" and "k \<le> 1000"
  shows "\<bar>fl64 x - x\<bar> \<le> 2 powi (int k - 54)"
proof (cases "x = 0")
  case True
  then show ?thesis by (simp add: fl64_def)
next
  case False
  define q :: rat where "q = 2 powi (max (ilog2 \<bar>x\<bar>) (- 1022) - 52)"
  have q0: "0 < q"
    by (simp add: q_def)
  have "ilog2 \<bar>x\<bar> \<le> int k - 1"
    using False assms(1) by (intro ilog2_below_power) simp_all
  then have "max (ilog2 \<bar>x\<bar>) (- 1022) - 52 \<le> int k - 53"
    using assms(2) by simp
  then have q1: "q \<le> 2 powi (int k - 53)"
    unfolding q_def by (intro power_int_increasing) simp_all
  have f: "fl64 x = q * of_int (round_half_even (x / q))"
    using False by (simp add: fl64_def q_def Let_def)
  have "\<bar>q * (of_int (round_half_even (x / q)) - x / q)\<bar> \<le> q * (1 / 2)"
    using q0 round_half_even_near [of "x / q"] by (simp add: abs_mult)
  then have "\<bar>fl64 x - x\<bar> \<le> q / 2"
    using q0 by (simp add: f right_diff_distrib)
  also have "\<dots> \<le> 2 powi (int k - 53) / 2"
    using q1 by simp
  also have "\<dots> = 2 powi (int k - 54)"
    by (simp add: power_int_diff)
  finally show ?thesis .
qed

lemma fmt_time_ms_near:
  fixes t :: rat
  assumes "0 \<le> t"
  shows "\<exists>ms. py_round (float_mul (float_sub (Finite t) (Finite (of_int \<lfloor>t\<rfloor>))) (Finite 1000)) = Inr ms
           \<and> 0 \<le> ms \<and> ms \<le> 1000
           \<and> \<bar>of_int ms - (t - of_int \<lfloor>t\<rfloor>) * 1000\<bar> \<le> 1 / 2 + 1 / 2 ^ 43"
proof -
  define x where "x = t - of_int \<lfloor>t\<rfloor>"
  have x: "0 \<le> x" "x < 1"
    unfolding x_def by linarith+
  let ?d = "fl64 x"
  have a: "\<bar>x\<bar> \<le> 2000"
    using x by simp
  note d = to_binary64_small [OF a]
  have "\<bar>x\<bar> < 2 ^ 0"
    using x by simp
  from fl64_error [OF this] have de: "\<bar>?d - x\<bar> \<le> 1 / 2 ^ 54"
    by (simp add: power_int_minus inverse_eq_divide)
  have d0: "0 \<le> ?d"
    using d(3) x by simp
  have d1: "?d \<le> 1 + 1 / 2 ^ 54"
    using de x by linarith
  have b: "\<bar>?d * 1000\<bar> \<le> 2000"
    using d0 d1 by (simp add: abs_mult) 
  note m = to_binary64_small [OF b]
  let ?m = "fl64 (?d * 1000)"
  have "\<bar>?d * 1000\<bar> < 2 ^ 10"
    using d0 d1 by simp
  from fl64_error [OF this] have me: "\<bar>?m - ?d * 1000\<bar> \<le> 1 / 2 ^ 44"
    by (simp add: power_int_minus inverse_eq_divide)
  have "(1000 :: rat) * (1 / 2 ^ 54) \<le> 1 / 2 ^ 44"
    by simp
  moreover have "\<bar>?d * 1000 - x * 1000\<bar> \<le> 1000 * (1 / 2 ^ 54)"
    using de by linarith
  ultimately have "\<bar>?m - x * 1000\<bar> \<le> 1 / 2 ^ 44 + 1 / 2 ^ 44"
    using me by linarith
  then have mx: "\<bar>?m - x * 1000\<bar> \<le> 1 / 2 ^ 43"
    by simp
  let ?ms = "round_half_even ?m"
  have run: "py_round (float_mul (float_sub (Finite t) (Finite (of_int \<lfloor>t\<rfloor>))) (Finite 1000)) = Inr ?ms"
    using d(1) m(1) by (simp add: x_def)
  have m0: "0 \<le> ?m"
    using m(3) d0 by simp
  then have ms0: "0 \<le> ?ms"
    by (rule round_half_even_nonneg)
  have near: "\<bar>of_int ?ms - x * 1000\<bar> \<le> 1 / 2 + 1 / 2 ^ 43"
    using round_half_even_near [of ?m] mx by linarith
  have "(1 :: rat) / 2 ^ 43 \<le> 1 / 2"
    by simp
  then have "of_int ?ms < (1001 :: rat)"
    using near x(2) by linarith
  then have "?ms \<le> 1000"
    by linarith
  with run ms0 near show ?thesis
    unfolding x_def by blast
qed

lemma format_0d_nonneg: "0 \<le> n \<Longrightarrow> format_0d w n = zfill w (digits (nat n))"
  by (simp add: format_0d_def)

lemma round_half_even_of_int: "round_half_even (of_int n) = n"
  by (simp add: round_half_even_def Let_def)

lemma ilog2_nonneg:
  assumes "1 \<le> x"
  shows "0 \<le> ilog2 x"
proof -
  have "nat \<lfloor>x\<rfloor> \<noteq> 0"
    using assms by simp
  then have "1 \<le> bit_length (nat \<lfloor>x\<rfloor>)"
    by (subst bit_length.simps) simp
  then show ?thesis
    using assms by (simp add: ilog2_def)
qed

lemma powi_nonneg_int: "0 \<le> k \<Longrightarrow> (2 :: rat) powi k = of_int (2 ^ nat k)"
  by (simp add: power_int_def)

lemma fl64_on_grid:
  assumes "x / 2 powi (max (ilog2 \<bar>x\<bar>) (- 1022) - 52) = of_int n"
  shows "fl64 x = x"
proof (cases "x = 0")
  case True
  then show ?thesis by (simp add: fl64_def)
next
  case False
  define q :: rat where "q = 2 powi (max (ilog2 \<bar>x\<bar>) (- 1022) - 52)"
  have q: "0 < q" by (simp add: q_def)
  from assms have xq: "x / q = of_int n"
    by (simp add: q_def)
  then have "q * of_int n = x"
    using q by (simp add: field_simps)
  then show ?thesis
    using False xq by (simp add: fl64_def Let_def round_half_even_of_int flip: q_def)
qed

lemma binary64_on_grid:
  assumes "fl64 x = x"
  shows "\<exists>n. x / 2 powi (max (ilog2 \<bar>x\<bar>) (- 1022) - 52) = of_int n"
proof (cases "x = 0")
  case True
  then show ?thesis by (intro exI [of _ 0]) simp
next
  case False
  define q :: rat where "q = 2 powi (max (ilog2 \<bar>x\<bar>) (- 1022) - 52)"
  have q: "0 < q" by (simp add: q_def)
  from assms False have "q * of_int (round_half_even (x / q)) = x"
    by (simp add: fl64_def Let_def q_def)
  then have "x / q = of_int (round_half_even (x / q))"
    using q by (simp add: field_simps)
  then show ?thesis
    unfolding q_def by blast
qed

lemma fraction_exact:
  assumes "0 \<le> t" and "fl64 t = t"
  shows "fl64 (t - of_int \<lfloor>t\<rfloor>) = t - of_int \<lfloor>t\<rfloor>"
proof (cases "\<lfloor>t\<rfloor> = 0 \<or> t - of_int \<lfloor>t\<rfloor> = 0")
  case True
  then show ?thesis
  proof
    assume "\<lfloor>t\<rfloor> = 0"
    then show ?thesis using assms(2) by simp
  next
    assume "t - of_int \<lfloor>t\<rfloor> = 0"
    then show ?thesis by (simp add: fl64_def)
  qed
next
  case False
  define f where "f = t - of_int \<lfloor>t\<rfloor>"
  have f: "0 < f" "f < 1"
    using False unfolding f_def by linarith+
  have "0 \<le> \<lfloor>t\<rfloor>"
    using assms(1) by simp
  with False have "1 \<le> \<lfloor>t\<rfloor>"
    by linarith
  then have t1: "1 \<le> t"
    by linarith
  define a where "a = max (ilog2 \<bar>t\<bar>) (- 1022) - 52"
  define b where "b = max (ilog2 \<bar>f\<bar>) (- 1022) - 52"
  have "0 \<le> ilog2 \<bar>t\<bar>"
    using t1 by (intro ilog2_nonneg) simp
  then have a: "- 52 \<le> a"
    by (simp add: a_def)
  have "ilog2 \<bar>f\<bar> \<le> - 1"
    using f by (intro ilog2_fraction) simp_all
  then have b: "b \<le> - 53"
    by (simp add: b_def)
  from binary64_on_grid [OF assms(2)] obtain n where n: "t / 2 powi a = of_int n"
    unfolding a_def by blast
  have ab: "0 \<le> a - b" "0 \<le> - b"
    using a b by simp_all
  have "t / 2 powi b = (t / 2 powi a) * 2 powi (a - b)"
    by (simp add: power_int_diff)
  also have "\<dots> = of_int (n * 2 ^ nat (a - b))"
    using ab(1) by (simp add: n powi_nonneg_int)
  finally have tb: "t / 2 powi b = of_int (n * 2 ^ nat (a - b))" .
  have "of_int \<lfloor>t\<rfloor> / 2 powi b = (of_int \<lfloor>t\<rfloor> :: rat) * 2 powi (- b)"
    by (simp add: power_int_minus divide_inverse)
  also have "\<dots> = of_int (\<lfloor>t\<rfloor> * 2 ^ nat (- b))"
    using ab(2) by (simp add: powi_nonneg_int)
  finally have fb: "of_int \<lfloor>t\<rfloor> / 2 powi b = (of_int (\<lfloor>t\<rfloor> * 2 ^ nat (- b)) :: rat)" .
  have "f / 2 powi b = of_int (n * 2 ^ nat (a - b) - \<lfloor>t\<rfloor> * 2 ^ nat (- b))"
    unfolding f_def diff_divide_distrib tb fb by simp
  then have "fl64 f = f"
    unfolding b_def by (rule fl64_on_grid)
  then show ?thesis
    by (simp add: f_def)
qed

lemma fmt_time_ms_binary64:
  fixes t :: rat
  assumes "0 \<le> t" and "fl64 t = t"
  shows "py_round (float_mul (float_sub (Finite t) (Finite (of_int \<lfloor>t\<rfloor>))) (Finite 1000))
           = Inr (round_half_even (fl64 ((t - of_int \<lfloor>t\<rfloor>) * 1000)))"
    and "float_sub (Finite t) (Finite (of_int \<lfloor>t\<rfloor>)) = Finite (t - of_int \<lfloor>t\<rfloor>)"
proof -
  define x where "x = t - of_int \<lfloor>t\<rfloor>"
  have x: "0 \<le> x" "x < 1"
    unfolding x_def by linarith+
  have ex: "fl64 x = x"
    unfolding x_def by (rule fraction_exact [OF assms])
  have "\<bar>x\<bar> \<le> 2000"
    using x by simp
  from to_binary64_small(1) [OF this] have s: "to_binary64 x = Finite x"
    by (simp add: ex)
  have "\<bar>x * 1000\<bar> \<le> 2000"
    using x by (simp add: abs_mult)
  from to_binary64_small(1) [OF this] have m: "to_binary64 (x * 1000) = Finite (fl64 (x * 1000))" .
  show "float_sub (Finite t) (Finite (of_int \<lfloor>t\<rfloor>)) = Finite (t - of_int \<lfloor>t\<rfloor>)"
    using s by (simp add: x_def)
  then show "py_round (float_mul (float_sub (Finite t) (Finite (of_int \<lfloor>t\<rfloor>))) (Finite 1000))
           = Inr (round_half_even (fl64 ((t - of_int \<lfloor>t\<rfloor>) * 1000)))"
    using m by (simp add: x_def)
qed

text \<open>
  C7, as stated, fails at the float nearest to 0.0005. It is not negative, and the exact
  product \<open>(t - floor(t)) * 1000\<close> lies above one half, so every rounding of it to the
  nearest integer gives 1; the float product is one half exactly, Python's \<open>round\<close>
  takes it to the even integer 0, and \<open>fmt_time\<close> prints 000. At the float infinity,
  which is not negative either, \<open>int(t)\<close> raises.
\<close>

theorem fmt_time_exact_round_counterexample:
  "(0 :: rat) \<le> 1152921504606847 / 2305843009213693952
   \<and> is_binary64 (1152921504606847 / 2305843009213693952)
   \<and> fl64 0.0005 = 1152921504606847 / 2305843009213693952
   \<and> (1 :: rat) / 2 < (1152921504606847 / 2305843009213693952 - of_int \<lfloor>1152921504606847 / 2305843009213693952 :: rat\<rfloor>) * 1000
   \<and> (1152921504606847 / 2305843009213693952 - of_int \<lfloor>1152921504606847 / 2305843009213693952 :: rat\<rfloor>) * 1000 < (3 :: rat) / 2
   \<and> round ((1152921504606847 / 2305843009213693952 - of_int \<lfloor>1152921504606847 / 2305843009213693952 :: rat\<rfloor>) * 1000 :: rat) = 1
   \<and> fl64 ((1152921504606847 / 2305843009213693952 - of_int \<lfloor>1152921504606847 / 2305843009213693952 :: rat\<rfloor>) * 1000) = 1 / 2
   \<and> fmt_time (Finite (1152921504606847 / 2305843009213693952)) = Inr ''00:00:00,000''
   \<and> fmt_time PosInf = Inl OverflowError"
  by code_simp

text \<open>
  C7, amended: for every finite float \<open>t\<close> that is not negative, \<open>fmt_time\<close> returns the
  hours \<open>floor(t / 3600)\<close>, the minutes \<open>floor(t / 60) mod 60\<close> and the seconds
  \<open>floor(t) mod 60\<close>, and as milliseconds Python's \<open>round\<close> (ties to the even integer)
  of the binary64 product of \<open>t - floor(t)\<close> and 1000, in decimal digits padded with
  zeros to at least 2, 2, 2 and 3 digits, separated by \<open>:\<close>, \<open>:\<close> and \<open>,\<close>. The
  difference \<open>t - floor(t)\<close> is exact in float arithmetic; the milliseconds lie between
  0 and 1000 and within a half and \<open>2\<close> to the \<open>- 43\<close> of the exact product. The time
  3725.250 is rendered \<open>01:02:05,250\<close>.
\<close>

theorem fmt_time_fields:
  "(0 \<le> t \<and> is_binary64 t \<longrightarrow>
      float_sub (Finite t) (Finite (of_int \<lfloor>t\<rfloor>)) = Finite (t - of_int \<lfloor>t\<rfloor>)
      \<and> py_round (float_mul (float_sub (Finite t) (Finite (of_int \<lfloor>t\<rfloor>))) (Finite 1000))
          = Inr (round_half_even (fl64 ((t - of_int \<lfloor>t\<rfloor>) * 1000)))
      \<and> 0 \<le> round_half_even (fl64 ((t - of_int \<lfloor>t\<rfloor>) * 1000))
      \<and> round_half_even (fl64 ((t - of_int \<lfloor>t\<rfloor>) * 1000)) \<le> 1000
      \<and> \<bar>of_int (round_half_even (fl64 ((t - of_int \<lfloor>t\<rfloor>) * 1000)))
            - (t - of_int \<lfloor>t\<rfloor>) * 1000\<bar> \<le> 1 / 2 + 1 / 2 ^ 43
      \<and> fmt_time (Finite t) =
          Inr (zfill 2 (digits (nat \<lfloor>t / 3600\<rfloor>)) @ '':''
               @ zfill 2 (digits (nat (\<lfloor>t / 60\<rfloor> mod 60))) @ '':''
               @ zfill 2 (digits (nat (\<lfloor>t\<rfloor> mod 60))) @ '',''
               @ zfill 3 (digits (nat (round_half_even (fl64 ((t - of_int \<lfloor>t\<rfloor>) * 1000)))))))
   \<and> is_binary64 3725.250
   \<and> fmt_time (Finite 3725.250) = Inr ''01:02:05,250''"
proof (intro conjI impI)
  assume "0 \<le> t \<and> is_binary64 t"
  then have t: "0 \<le> t" and bt: "fl64 t = t"
    by (simp_all add: is_binary64_def)
  define ms where "ms = round_half_even (fl64 ((t - of_int \<lfloor>t\<rfloor>) * 1000))"
  note run = fmt_time_ms_binary64 [OF t bt, folded ms_def]
  from fmt_time_ms_near [OF t] run(1) have
    ms: "0 \<le> ms" "ms \<le> 1000"
      "\<bar>of_int ms - (t - of_int \<lfloor>t\<rfloor>) * 1000\<bar> \<le> 1 / 2 + 1 / 2 ^ 43"
    by auto
  show "float_sub (Finite t) (Finite (of_int \<lfloor>t\<rfloor>)) = Finite (t - of_int \<lfloor>t\<rfloor>)"
    by (rule run(2))
  show "py_round (float_mul (float_sub (Finite t) (Finite (of_int \<lfloor>t\<rfloor>))) (Finite 1000))
          = Inr (round_half_even (fl64 ((t - of_int \<lfloor>t\<rfloor>) * 1000)))"
    using run(1) unfolding ms_def .
  show "0 \<le> round_half_even (fl64 ((t - of_int \<lfloor>t\<rfloor>) * 1000))"
    using ms(1) unfolding ms_def .
  show "round_half_even (fl64 ((t - of_int \<lfloor>t\<rfloor>) * 1000)) \<le> 1000"
    using ms(2) unfolding ms_def .
  show "\<bar>of_int (round_half_even (fl64 ((t - of_int \<lfloor>t\<rfloor>) * 1000)))
            - (t - of_int \<lfloor>t\<rfloor>) * 1000\<bar> \<le> 1 / 2 + 1 / 2 ^ 43"
    using ms(3) unfolding ms_def .
  have tr: "float_int (Finite t) = Inr \<lfloor>t\<rfloor>"
    using t by (simp add: py_trunc_def)
  have f: "0 \<le> \<lfloor>t\<rfloor>"
    using t by simp
  have h: "\<lfloor>t\<rfloor> div 3600 = \<lfloor>t / 3600\<rfloor>" and m: "\<lfloor>t\<rfloor> div 60 = \<lfloor>t / 60\<rfloor>"
    using floor_divide_rat [of 3600 t] floor_divide_rat [of 60 t] by simp_all
  have nn: "0 \<le> \<lfloor>t\<rfloor> div 3600" "0 \<le> (\<lfloor>t\<rfloor> div 60) mod 60" "0 \<le> \<lfloor>t\<rfloor> mod 60"
    using f by (simp_all add: pos_imp_zdiv_nonneg_iff)
  have "fmt_time (Finite t) =
          Inr (zfill 2 (digits (nat (\<lfloor>t\<rfloor> div 3600))) @ '':''
               @ zfill 2 (digits (nat ((\<lfloor>t\<rfloor> div 60) mod 60))) @ '':''
               @ zfill 2 (digits (nat (\<lfloor>t\<rfloor> mod 60))) @ '',''
               @ zfill 3 (digits (nat ms)))"
    unfolding fmt_time_def tr err_bind_def
    by (simp add: run(1) ms(1) Let_def format_0d_nonneg nn
          del: float_sub.simps float_mul.simps py_round.simps)
  then show "fmt_time (Finite t) =
          Inr (zfill 2 (digits (nat \<lfloor>t / 3600\<rfloor>)) @ '':''
               @ zfill 2 (digits (nat (\<lfloor>t / 60\<rfloor> mod 60))) @ '':''
               @ zfill 2 (digits (nat (\<lfloor>t\<rfloor> mod 60))) @ '',''
               @ zfill 3 (digits (nat (round_half_even (fl64 ((t - of_int \<lfloor>t\<rfloor>) * 1000))))))"
    unfolding h m ms_def .
next
  show "is_binary64 3725.250"
    by code_simp
next
  show "fmt_time (Finite 3725.250) = Inr ''01:02:05,250''"
    by code_simp
qed

theorem fmt_time_fields_witness:
  "(0 :: rat) \<le> 1 / 16
   \<and> is_binary64 (1 / 16)
   \<and> round_half_even (fl64 ((1 / 16 - of_int \<lfloor>1 / 16 :: rat\<rfloor>) * 1000)) = 62
   \<and> fmt_time (Finite (1 / 16)) = Inr ''00:00:00,062''"
proof -
  have h: "(0 :: rat) \<le> 1 / 16 \<and> is_binary64 (1 / 16)"
    by code_simp
  have ms: "round_half_even (fl64 ((1 / 16 - of_int \<lfloor>1 / 16 :: rat\<rfloor>) * 1000)) = 62"
    by code_simp
  have e: "zfill 2 (digits (nat \<lfloor>(1 / 16 :: rat) / 3600\<rfloor>)) @ '':''
               @ zfill 2 (digits (nat (\<lfloor>(1 / 16 :: rat) / 60\<rfloor> mod 60))) @ '':''
               @ zfill 2 (digits (nat (\<lfloor>1 / 16 :: rat\<rfloor> mod 60))) @ '',''
               @ zfill 3 (digits (nat 62)) = ''00:00:00,062''"
    by code_simp
  from fmt_time_fields [of "1 / 16"] h
  have "fmt_time (Finite (1 / 16)) =
          Inr (zfill 2 (digits (nat \<lfloor>(1 / 16 :: rat) / 3600\<rfloor>)) @ '':''
               @ zfill 2 (digits (nat (\<lfloor>(1 / 16 :: rat) / 60\<rfloor> mod 60))) @ '':''
               @ zfill 2 (digits (nat (\<lfloor>1 / 16 :: rat\<rfloor> mod 60))) @ '',''
               @ zfill 3 (digits (nat (round_half_even (fl64 ((1 / 16 - of_int \<lfloor>1 / 16 :: rat\<rfloor>) * 1000))))))"
    by blast
  then have "fmt_time (Finite (1 / 16)) = Inr ''00:00:00,062''"
    unfolding ms e .
  with h ms show ?thesis by blast
qed

text \<open>
  The bound 1000 of the milliseconds is reached, and nothing is carried into the
  seconds: the time 0.9996 is rendered with four digits of milliseconds.
\<close>

lemma fmt_time_no_carry: "fmt_time (Finite 0.9996) = Inr ''00:00:00,1000''"
  by code_simp

lemma fmt_time_finite: "\<exists>s. fmt_time (Finite r) = Inr s"
proof -
  have "\<bar>r - of_int (py_trunc r)\<bar> \<le> 1"
    by (simp add: py_trunc_def) linarith
  from fmt_time_ms [OF this] obtain ms where
    "py_round (float_mul (float_sub (Finite r) (Finite (of_int (py_trunc r)))) (Finite 1000)) = Inr ms"
    by blast
  then show ?thesis
    by (simp add: fmt_time_def err_bind_def Let_def del: float_sub.simps float_mul.simps py_round.simps)
qed

lemma entry_text_obj:
  "py_get item ''content'' JNull = Inr c \<Longrightarrow> py_strip (py_or c (JStr [])) = Inr s \<Longrightarrow>
   entry_text item = s"
  by (simp add: entry_text_def)

lemma srt_loop_numbered:
  "srt_loop w items lines index = Inr out \<Longrightarrow>
   \<exists>stamps. length stamps = length (filter (\<lambda>it. entry_text it \<noteq> []) items)
      \<and> out = lines @ numbered index
                  (zip stamps (map entry_text (filter (\<lambda>it. entry_text it \<noteq> []) items)))"
proof (induction items arbitrary: lines index)
  case Nil
  then show ?case by simp
next
  case (Cons item items)
  from Cons.prems obtain f start t stop c content where
    g: "py_get item ''content'' JNull = Inr c" "py_strip (py_or c (JStr [])) = Inr content"
    and rest: "(if content = [] then srt_loop w items lines index
          else err_bind (fmt_time start) (\<lambda>a. err_bind (fmt_time stop) (\<lambda>b.
                 srt_loop w items (lines @ [py_str index, a @ '' --> '' @ b, content, []]) (index + 1))))
         = Inr out"
    by (auto simp: err_bind_def split: sum.splits)
  have et: "entry_text item = content"
    using g by (rule entry_text_obj)
  show ?case
  proof (cases "content = []")
    case True
    with rest have "srt_loop w items lines index = Inr out" by simp
    from Cons.IH [OF this] show ?thesis
      using True et by simp
  next
    case False
    with rest obtain a b where
      r: "srt_loop w items (lines @ [py_str index, a @ '' --> '' @ b, content, []]) (index + 1) = Inr out"
      by (auto simp: err_bind_def split: sum.splits)
    from Cons.IH [OF this] obtain stamps where
      st: "length stamps = length (filter (\<lambda>it. entry_text it \<noteq> []) items)"
          "out = (lines @ [py_str index, a @ '' --> '' @ b, content, []]) @ numbered (index + 1)
                  (zip stamps (map entry_text (filter (\<lambda>it. entry_text it \<noteq> []) items)))"
      by blast
    show ?thesis
      using False et st
      by (intro exI [of _ "(a @ '' --> '' @ b) # stamps"]) simp
  qed
qed

lemma numbered_length: "length (numbered i blocks) = 4 * length blocks"
  by (induction blocks arbitrary: i) auto

lemma numbered_nth:
  "k < length blocks \<Longrightarrow>
     numbered i blocks ! (4 * k) = py_str (i + int k)
     \<and> numbered i blocks ! (4 * k + 1) = fst (blocks ! k)
     \<and> numbered i blocks ! (4 * k + 2) = snd (blocks ! k)
     \<and> numbered i blocks ! (4 * k + 3) = []"
proof (induction blocks arbitrary: i k)
  case Nil
  then show ?case by simp
next
  case (Cons b blocks)
  obtain stamp words where b: "b = (stamp, words)" by (cases b)
  show ?case
  proof (cases k)
    case 0
    then show ?thesis by (simp add: b)
  next
    case (Suc j)
    with Cons.prems have j: "j < length blocks" by simp
    have "4 * k = Suc (Suc (Suc (Suc (4 * j))))" using Suc by simp
    with Cons.IH [OF j, of "i + 1"] show ?thesis
      using Suc by (simp add: b add.commute add.left_commute)
  qed
qed

lemma srt_loop_total:
  "list_all caption items \<Longrightarrow> \<exists>out. srt_loop w items lines index = Inr out"
proof (induction items arbitrary: lines index)
  case Nil
  then show ?case by simp
next
  case (Cons item items)
  from Cons.prems have ci: "caption item" and rest: "list_all caption items"
    by simp_all
  from ci obtain kvs where item: "item = JObj kvs"
    and wf: "timed (map_of kvs ''from'')" "timed (map_of kvs ''to'')" "worded (map_of kvs ''content'')"
    by (auto simp: caption_def split: json.splits)
  from wf(1) obtain s where s: "err_bind (py_get item ''from'' (JFloat (Finite 0))) (py_float (float_of_str w)) = Inr (Finite s)"
    by (auto simp: timed_def item err_bind_def split: option.splits json.splits pyfloat.splits)
  from wf(2) obtain e where e: "err_bind (py_get item ''to'' (JFloat (Finite 0))) (py_float (float_of_str w)) = Inr (Finite e)"
    by (auto simp: timed_def item err_bind_def split: option.splits json.splits pyfloat.splits)
  from wf(3) have "\<exists>content. err_bind (py_get item ''content'' JNull) (\<lambda>c. py_strip (py_or c (JStr []))) = Inr content"
    by (cases "map_of kvs ''content''")
       (auto simp: worded_def item err_bind_def py_strip_def py_or_def split: json.splits)
  then obtain content where c: "err_bind (py_get item ''content'' JNull) (\<lambda>c. py_strip (py_or c (JStr []))) = Inr content"
    by blast
  obtain a b where ab: "fmt_time (Finite s) = Inr a" "fmt_time (Finite e) = Inr b"
    using fmt_time_finite by blast
  from Cons.IH [OF rest] have
    "\<exists>out. srt_loop w items lines index = Inr out"
    "\<exists>out. srt_loop w items (lines @ [py_str index, a @ '' --> '' @ b, content, []]) (index + 1) = Inr out"
    by blast+
  then show ?case
    using s e c ab by (auto simp: err_bind_def split: sum.splits)
qed


text \<open>
  C6: when the conversion of a body returns, its lines come in groups of four, one
  group for each entry whose trimmed text is not empty, in the order of the body; the
  first line of group \<open>k\<close> (counted from 0) is the number \<open>k + 1\<close>, the third its trimmed
  text, the fourth a blank line, and the SRT text is these lines joined by newlines. An
  entry with an empty trimmed text gives no line and takes no number. The conversion
  returns on every body whose entries are objects with finite float times and string
  texts.
\<close>

theorem srt_indices_contiguous:
  "(\<forall>out. srt_lines w (JArr items) = Inr out \<longrightarrow>
      length out = 4 * length (filter (\<lambda>it. entry_text it \<noteq> []) items)
      \<and> (\<forall>k < length (filter (\<lambda>it. entry_text it \<noteq> []) items).
            out ! (4 * k) = py_str (int k + 1)
            \<and> out ! (4 * k + 2) = entry_text (filter (\<lambda>it. entry_text it \<noteq> []) items ! k)
            \<and> out ! (4 * k + 3) = [])
      \<and> json_subtitle_to_srt w (JArr items) = Inr (join [CHR 0x0A] out))
   \<and> (list_all caption items \<longrightarrow> (\<exists>out. srt_lines w (JArr items) = Inr out))"
proof (intro conjI allI impI)
  let ?kept = "filter (\<lambda>it. entry_text it \<noteq> []) items"
  fix out assume run: "srt_lines w (JArr items) = Inr out"
  then have "srt_loop w items [] 1 = Inr out"
    by (simp add: srt_lines_def err_bind_def)
  from srt_loop_numbered [OF this] obtain stamps where
    st: "length stamps = length ?kept"
        "out = numbered 1 (zip stamps (map entry_text ?kept))"
    by auto
  show "length out = 4 * length ?kept"
    using st by (simp add: numbered_length)
  show "json_subtitle_to_srt w (JArr items) = Inr (join [CHR 0x0A] out)"
    using run by (simp add: json_subtitle_to_srt_def err_bind_def)
  fix k assume k: "k < length ?kept"
  then have kz: "k < length (zip stamps (map entry_text ?kept))"
    using st(1) by simp
  from numbered_nth [OF kz, of 1] st(2) k
  show "out ! (4 * k) = py_str (int k + 1)"
    and "out ! (4 * k + 2) = entry_text (?kept ! k)"
    and "out ! (4 * k + 3) = []"
    using st(1) by (simp_all add: add.commute)
next
  assume "list_all caption items"
  from srt_loop_total [OF this, of w "[]" 1]
  show "\<exists>out. srt_lines w (JArr items) = Inr out"
    by (simp add: srt_lines_def err_bind_def)
qed

theorem srt_indices_contiguous_witness:
  "list_all caption demo_entries
   \<and> srt_lines (demo_world no_tracks no_tracks no_tracks) (JArr demo_entries) =
       Inr [''1'', ''00:00:00,000 --> 00:00:01,500'', ''hello'', [],
            ''2'', ''00:01:01,000 --> 01:02:05,250'', ''world'', []]
   \<and> map entry_text (filter (\<lambda>it. entry_text it \<noteq> []) demo_entries) = [''hello'', ''world'']
   \<and> length [''1'', ''00:00:00,000 --> 00:00:01,500'', ''hello'', [],
            ''2'', ''00:01:01,000 --> 01:02:05,250'', ''world'', []]
       = 4 * length (filter (\<lambda>it. entry_text it \<noteq> []) demo_entries)
   \<and> json_subtitle_to_srt (demo_world no_tracks no_tracks no_tracks) (JArr demo_entries) =
       Inr (join [CHR 0x0A] [''1'', ''00:00:00,000 --> 00:00:01,500'', ''hello'', [],
            ''2'', ''00:01:01,000 --> 01:02:05,250'', ''world'', []])"
proof -
  let ?w = "demo_world no_tracks no_tracks no_tracks"
  let ?out = "[''1'', ''00:00:00,000 --> 00:00:01,500'', ''hello'', [],
            ''2'', ''00:01:01,000 --> 01:02:05,250'', ''world'', []]"
  have c: "list_all caption demo_entries"
    by code_simp
  have k: "map entry_text (filter (\<lambda>it. entry_text it \<noteq> []) demo_entries) = [''hello'', ''world'']"
    by code_simp
  from srt_indices_contiguous [of ?w demo_entries] c
  obtain out where out: "srt_lines ?w (JArr demo_entries) = Inr out"
    by blast
  have "srt_lines ?w (JArr demo_entries) = Inr ?out"
    by code_simp
  with out have o: "out = ?out" by simp
  from srt_indices_contiguous [of ?w demo_entries] out
  have "length out = 4 * length (filter (\<lambda>it. entry_text it \<noteq> []) demo_entries)"
    and "json_subtitle_to_srt ?w (JArr demo_entries) = Inr (join [CHR 0x0A] out)"
    by blast+
  with c k out show ?thesis
    unfolding o by blast
qed


end
